theory Spec2Isabelle
  imports Complex_Main "HOL-Library.Word"
begin

section \<open>IEEE 754 binary floating point\<close>

datatype fp = Finite real | PInf | NInf | NaN

text \<open>
  A \<^verbatim>\<open>float\<close> or a \<^verbatim>\<open>double\<close> that takes part in arithmetic is a value of \<^typ>\<open>fp\<close>: a
  finite number, one of the two infinities, or NaN. The two zeros are one value, as
  they are for \<^verbatim>\<open>==\<close>. The result of an operation on finite numbers is the exact result
  rounded to the format, to the nearest number of the format and to the even one of two
  that are equally near; a rounded result beyond the largest finite number of the format
  is an infinity. A format is given by its precision \<open>p\<close> and its least and greatest
  exponent: 24, -126 and 127 for \<^verbatim>\<open>float\<close>, 53, -1022 and 1023 for \<^verbatim>\<open>double\<close>.
\<close>

text \<open>The integer nearest to a number, the even one of two that are equally near.\<close>

definition roundEven :: "real \<Rightarrow> int" where
  "roundEven x =
     (let f = \<lfloor>x\<rfloor>; r = x - of_int f
      in if r < 1 / 2 then f else if 1 / 2 < r then f + 1 else if even f then f else f + 1)"

text \<open>
  The exponent of the unit in the last place of a number: numbers below the least
  exponent are subnormal and share the unit of the least exponent.
\<close>

definition ulpExp :: "nat \<Rightarrow> int \<Rightarrow> real \<Rightarrow> int" where
  "ulpExp p emin x = max \<lfloor>log 2 \<bar>x\<bar>\<rfloor> emin - (int p - 1)"

definition roundTo :: "nat \<Rightarrow> int \<Rightarrow> real \<Rightarrow> real" where
  "roundTo p emin x =
     (if x = 0 then 0
      else of_int (roundEven (x / 2 powi ulpExp p emin x)) * 2 powi ulpExp p emin x)"

definition maxFinite :: "nat \<Rightarrow> int \<Rightarrow> real" where
  "maxFinite p emax = (2 - 2 powi (1 - int p)) * 2 powi emax"

definition fround :: "nat \<Rightarrow> int \<Rightarrow> int \<Rightarrow> real \<Rightarrow> fp" where
  "fround p emin emax x =
     (let y = roundTo p emin x
      in if maxFinite p emax < \<bar>y\<bar> then (if 0 < y then PInf else NInf) else Finite y)"

definition roundFloat :: "real \<Rightarrow> fp" where
  "roundFloat = fround 24 (- 126) 127"

definition roundDouble :: "real \<Rightarrow> fp" where
  "roundDouble = fround 53 (- 1022) 1023"

text \<open>
  Negation, addition, subtraction and multiplication, with the rounding of the format as
  a parameter. \<open>\<infinity> - \<infinity>\<close> and \<open>0 * \<infinity>\<close> are NaN, and NaN is passed on.
\<close>

fun fneg :: "fp \<Rightarrow> fp" where
  "fneg (Finite x) = Finite (- x)"
| "fneg PInf = NInf"
| "fneg NInf = PInf"
| "fneg NaN = NaN"

fun fadd :: "(real \<Rightarrow> fp) \<Rightarrow> fp \<Rightarrow> fp \<Rightarrow> fp" where
  "fadd rnd NaN b = NaN"
| "fadd rnd a NaN = NaN"
| "fadd rnd (Finite x) (Finite y) = rnd (x + y)"
| "fadd rnd (Finite x) PInf = PInf"
| "fadd rnd (Finite x) NInf = NInf"
| "fadd rnd PInf (Finite y) = PInf"
| "fadd rnd NInf (Finite y) = NInf"
| "fadd rnd PInf PInf = PInf"
| "fadd rnd NInf NInf = NInf"
| "fadd rnd PInf NInf = NaN"
| "fadd rnd NInf PInf = NaN"

definition fsub :: "(real \<Rightarrow> fp) \<Rightarrow> fp \<Rightarrow> fp \<Rightarrow> fp" where
  "fsub rnd a b = fadd rnd a (fneg b)"

definition infOfSign :: "real \<Rightarrow> fp" where
  "infOfSign x = (if x = 0 then NaN else if 0 < x then PInf else NInf)"

fun fmul :: "(real \<Rightarrow> fp) \<Rightarrow> fp \<Rightarrow> fp \<Rightarrow> fp" where
  "fmul rnd NaN b = NaN"
| "fmul rnd a NaN = NaN"
| "fmul rnd (Finite x) (Finite y) = rnd (x * y)"
| "fmul rnd (Finite x) PInf = infOfSign x"
| "fmul rnd (Finite x) NInf = infOfSign (- x)"
| "fmul rnd PInf (Finite y) = infOfSign y"
| "fmul rnd NInf (Finite y) = infOfSign (- y)"
| "fmul rnd PInf PInf = PInf"
| "fmul rnd NInf NInf = PInf"
| "fmul rnd PInf NInf = NInf"
| "fmul rnd NInf PInf = NInf"

text \<open>
  The conversion of a \<^verbatim>\<open>double\<close> to \<^verbatim>\<open>float\<close>, which rounds like an operation, and the
  numbers of each format: those that rounding leaves as they are.
\<close>

definition toFloat :: "fp \<Rightarrow> fp" where
  "toFloat a = (case a of Finite x \<Rightarrow> roundFloat x | PInf \<Rightarrow> PInf | NInf \<Rightarrow> NInf | NaN \<Rightarrow> NaN)"

definition isFloat :: "real \<Rightarrow> bool" where
  "isFloat x = (roundFloat x = Finite x)"

definition isDouble :: "real \<Rightarrow> bool" where
  "isDouble x = (roundDouble x = Finite x)"

text \<open>
  What a variable of type \<^verbatim>\<open>double\<close> or \<^verbatim>\<open>float\<close> can hold: an infinity, NaN, or a finite
  number of the format.
\<close>

definition doubleValue :: "fp \<Rightarrow> bool" where
  "doubleValue a = (case a of Finite x \<Rightarrow> isDouble x | PInf \<Rightarrow> True | NInf \<Rightarrow> True | NaN \<Rightarrow> True)"

definition floatValue :: "fp \<Rightarrow> bool" where
  "floatValue a = (case a of Finite x \<Rightarrow> isFloat x | PInf \<Rightarrow> True | NInf \<Rightarrow> True | NaN \<Rightarrow> True)"

definition finiteDouble :: "fp \<Rightarrow> bool" where
  "finiteDouble a = (case a of Finite x \<Rightarrow> isDouble x | PInf \<Rightarrow> False | NInf \<Rightarrow> False | NaN \<Rightarrow> False)"

section \<open>FirstOrderFilter (src/FirstOrderFilter.h)\<close>

text \<open>
  The class \<^verbatim>\<open>FirstOrderFilter\<close> is a one-pole/one-zero IIR filter in direct form 2.
  The samples and the state variable \<^verbatim>\<open>m_state\<close> are values of \<^typ>\<open>fp\<close>, and the
  arithmetic on them is that of \<^verbatim>\<open>double\<close>. The parameters and the coefficients are
  \<^typ>\<open>real\<close>: \<^verbatim>\<open>computeCoeffs\<close> is read with exact arithmetic, \<^verbatim>\<open>M_PI\<close> is \<^term>\<open>pi\<close> and
  \<^verbatim>\<open>pow (10.0, x)\<close> is \<^term>\<open>10 powr x\<close>.
\<close>

datatype FilterDesign =
  lowpassSmooth | lowpassButter | lowShelv | highpassSmooth | highpassButter | highShelv | none

record FirstOrderFilter =
  m_b0 :: real
  m_b1 :: real
  m_a1 :: real
  m_state :: fp
  m_fs :: real
  m_cutoff :: real
  m_gain_db :: real
  m_design :: FilterDesign

text \<open>\<^verbatim>\<open>computeCoeffs\<close>, lines 115 to 177: one branch per design, in the source's order.\<close>

definition computeCoeffs :: "FirstOrderFilter \<Rightarrow> FirstOrderFilter" where
  "computeCoeffs f =
    (case m_design f of
       none \<Rightarrow> f\<lparr>m_b0 := 1, m_b1 := 0, m_a1 := 0\<rparr>
     | lowpassButter \<Rightarrow>
         (let fcut = tan (pi * m_cutoff f / m_fs f) * 2 * m_fs f;
              w = 2 * m_fs f;
              Norm = 1 / (fcut + w)
          in f\<lparr>m_a1 := - (w - fcut) * Norm, m_b1 := fcut * Norm, m_b0 := fcut * Norm\<rparr>)
     | highpassButter \<Rightarrow>
         (let fcut = tan (pi * m_cutoff f / m_fs f) * 2 * m_fs f;
              w = 2 * m_fs f;
              Norm = 1 / (fcut + w)
          in f\<lparr>m_b0 := w * Norm, m_b1 := - (w * Norm), m_a1 := - (w - fcut) * Norm\<rparr>)
     | lowpassSmooth \<Rightarrow>
         (let om = 2 * pi * m_cutoff f / m_fs f;
              a = (2 - cos om) - sqrt ((2 - cos om) * (2 - cos om) - 1)
          in f\<lparr>m_b1 := 0, m_b0 := 1 - a, m_a1 := a * (- 1)\<rparr>)
     | highpassSmooth \<Rightarrow>
         (let om = 2 * pi * m_cutoff f / m_fs f;
              a = (2 + cos om) - sqrt ((2 + cos om) * (2 + cos om) - 1)
          in f\<lparr>m_b1 := 0, m_a1 := a, m_b0 := a - 1\<rparr>)
     | lowShelv \<Rightarrow>
         (let A = 10 powr (m_gain_db f / 40);
              fcut = tan (pi * m_cutoff f / m_fs f) * 2 * m_fs f;
              w = 2 * m_fs f;
              Norm = 1 / (fcut + w * A)
          in f\<lparr>m_b0 := A * (A * fcut + w) * Norm,
                m_b1 := - A * (w - A * fcut) * Norm,
                m_a1 := - (A * w - fcut) * Norm\<rparr>)
     | highShelv \<Rightarrow>
         (let A = 10 powr (m_gain_db f / 40);
              fcut = tan (pi * m_cutoff f / m_fs f) * 2 * m_fs f;
              w = 2 * m_fs f;
              Norm = 1 / (A * fcut + w)
          in f\<lparr>m_b0 := A * (fcut + A * w) * Norm,
                m_b1 := - A * (A * w - fcut) * Norm,
                m_a1 := - (w - A * fcut) * Norm\<rparr>))"

text \<open>\<^verbatim>\<open>reset\<close>, lines 178 to 181.\<close>

definition reset :: "FirstOrderFilter \<Rightarrow> FirstOrderFilter" where
  "reset f = f\<lparr>m_state := Finite 0\<rparr>"

text \<open>
  The default constructor, lines 38 to 42. The coefficients and the state have no
  initialiser; they are first written by \<^verbatim>\<open>computeCoeffs\<close> and \<^verbatim>\<open>reset\<close>, so the
  values they are given before that do not reach the result.
\<close>

definition FirstOrderFilter_default :: FirstOrderFilter where
  "FirstOrderFilter_default =
     reset (computeCoeffs
       \<lparr>m_b0 = 0, m_b1 = 0, m_a1 = 0, m_state = Finite 0,
        m_fs = 44100, m_cutoff = 1000, m_gain_db = 0, m_design = none\<rparr>)"

text \<open>The constructor with cutoff, sample rate, gain and design, lines 50 to 55.\<close>

definition FirstOrderFilter_new :: "real \<Rightarrow> real \<Rightarrow> real \<Rightarrow> FilterDesign \<Rightarrow> FirstOrderFilter" where
  "FirstOrderFilter_new fcut fs gain_dB design =
     reset (computeCoeffs
       \<lparr>m_b0 = 0, m_b1 = 0, m_a1 = 0, m_state = Finite 0,
        m_fs = fs, m_cutoff = fcut, m_gain_db = gain_dB, m_design = design\<rparr>)"

text \<open>
  The four setters, lines 56 to 75. Only \<^verbatim>\<open>setSamplerate\<close> calls \<^verbatim>\<open>reset\<close>. It carries the
  class name here, because \<^verbatim>\<open>BasicDelayEffect\<close> has a \<^verbatim>\<open>setSamplerate\<close> of its own.
\<close>

definition FirstOrderFilter_setSamplerate :: "real \<Rightarrow> FirstOrderFilter \<Rightarrow> FirstOrderFilter" where
  "FirstOrderFilter_setSamplerate samplerate f = reset (computeCoeffs (f\<lparr>m_fs := samplerate\<rparr>))"

definition setCutoff :: "real \<Rightarrow> FirstOrderFilter \<Rightarrow> FirstOrderFilter" where
  "setCutoff cutoff f = computeCoeffs (f\<lparr>m_cutoff := cutoff\<rparr>)"

definition setDesignroutine :: "FilterDesign \<Rightarrow> FirstOrderFilter \<Rightarrow> FirstOrderFilter" where
  "setDesignroutine design f = computeCoeffs (f\<lparr>m_design := design\<rparr>)"

definition setGainIndB :: "real \<Rightarrow> FirstOrderFilter \<Rightarrow> FirstOrderFilter" where
  "setGainIndB gain_dB f = computeCoeffs (f\<lparr>m_gain_db := gain_dB\<rparr>)"

text \<open>
  \<^verbatim>\<open>processOneSample\<close> on a \<^verbatim>\<open>double\<close>, lines 101 to 108: the output sample and the
  filter with its new state. Each product, the difference and the sum are rounded to
  \<^verbatim>\<open>double\<close>.
\<close>

definition processOneSample :: "fp \<Rightarrow> FirstOrderFilter \<Rightarrow> fp \<times> FirstOrderFilter" where
  "processOneSample data f =
     (let instate = fsub roundDouble data (fmul roundDouble (Finite (m_a1 f)) (m_state f));
          Temp = fadd roundDouble (fmul roundDouble instate (Finite (m_b0 f)))
                   (fmul roundDouble (m_state f) (Finite (m_b1 f)))
      in (Temp, f\<lparr>m_state := instate\<rparr>))"

text \<open>
  \<^verbatim>\<open>processOneSample\<close> on a \<^verbatim>\<open>float\<close>, lines 93 to 100: the sample is widened to
  \<^verbatim>\<open>double\<close>, which changes no value, the arithmetic is that of the \<^verbatim>\<open>double\<close> overload,
  and the sum is converted to \<^verbatim>\<open>float\<close> when it is stored in \<^verbatim>\<open>Temp\<close>.
\<close>

definition processOneSample_float :: "fp \<Rightarrow> FirstOrderFilter \<Rightarrow> fp \<times> FirstOrderFilter" where
  "processOneSample_float data f =
     (let instate = fsub roundDouble data (fmul roundDouble (Finite (m_a1 f)) (m_state f));
          Temp = toFloat (fadd roundDouble (fmul roundDouble instate (Finite (m_b0 f)))
                   (fmul roundDouble (m_state f) (Finite (m_b1 f))))
      in (Temp, f\<lparr>m_state := instate\<rparr>))"

text \<open>
  \<^verbatim>\<open>processData\<close>, lines 82 to 92. The counter \<^verbatim>\<open>kk\<close> of the loop is declared
  \<^verbatim>\<open>auto kk = 0u\<close>, an \<^verbatim>\<open>unsigned\<close> of 32 bits: \<^verbatim>\<open>++kk\<close> wraps from \<open>2\<^sup>3\<^sup>2 - 1\<close> to 0, and the
  comparison with \<^verbatim>\<open>data.size()\<close> is made on its value. Each element is overwritten by
  its output, front to back. The loop need not end, so its result is an option: the
  vector and the filter when it ends. \<^verbatim>\<open>processData\<close> then returns 0.
\<close>

partial_function (option) processData_loop ::
  "32 word \<Rightarrow> fp list \<Rightarrow> FirstOrderFilter \<Rightarrow> (fp list \<times> FirstOrderFilter) option" where
  "processData_loop kk data f =
     (if unat kk < length data then
        (let instate = fsub roundDouble (data ! unat kk)
                         (fmul roundDouble (Finite (m_a1 f)) (m_state f));
             y = fadd roundDouble (fmul roundDouble instate (Finite (m_b0 f)))
                   (fmul roundDouble (m_state f) (Finite (m_b1 f)))
         in processData_loop (kk + 1) (data[unat kk := y]) (f\<lparr>m_state := instate\<rparr>))
      else Some (data, f))"

definition processData ::
  "fp list \<Rightarrow> FirstOrderFilter \<Rightarrow> (int \<times> fp list \<times> FirstOrderFilter) option" where
  "processData data f =
     (case processData_loop 0 data f of
        None \<Rightarrow> None
      | Some (ys, f') \<Rightarrow> Some (0, ys, f'))"

text \<open>
  The coefficients of a filter are up to date when recomputing them changes nothing.
\<close>

definition coeffsCurrent :: "FirstOrderFilter \<Rightarrow> bool" where
  "coeffsCurrent f = (computeCoeffs f = f)"

section \<open>BasicDelayEffect (src/BasicDelayEffect.h)\<close>

text \<open>
  The header declares the class, its members with their initialisers, and the setters
  that are written inline. The sample rate \<^verbatim>\<open>m_fs\<close> and the seconds that the setters in
  seconds take are \<^verbatim>\<open>float\<close> values of \<^typ>\<open>fp\<close>, and their product is rounded to
  \<^verbatim>\<open>float\<close>, as the inline setters compute it. The samples, the gains and the delays,
  which only the absent bodies compute with, are \<^typ>\<open>real\<close>. \<^verbatim>\<open>size_t\<close> is \<^typ>\<open>nat\<close>, a
  \<^verbatim>\<open>std::vector\<close> is a list.
\<close>

datatype switchState = normal | changeTime | futureValueSet

datatype switchAlgorithm = digital | fade | tape

text \<open>
  \<^verbatim>\<open>juce::AudioBuffer<float>\<close> is not part of the repository. It is taken as the spec
  describes it: a rectangular array of samples addressed by channel index and frame
  index, with a known channel count and frame count.
\<close>

record AudioBuffer =
  numChannels :: nat
  numSamples :: nat
  samples :: "nat \<Rightarrow> nat \<Rightarrow> real"

definition getSample :: "AudioBuffer \<Rightarrow> nat \<Rightarrow> nat \<Rightarrow> real" where
  "getSample b chn i = samples b chn i"

definition setSample :: "AudioBuffer \<Rightarrow> nat \<Rightarrow> nat \<Rightarrow> real \<Rightarrow> AudioBuffer" where
  "setSample b chn i v = b\<lparr>samples := (samples b)(chn := (samples b chn)(i := v))\<rparr>"

definition newBuffer :: "nat \<Rightarrow> nat \<Rightarrow> AudioBuffer" where
  "newBuffer chns len = \<lparr>numChannels = chns, numSamples = len, samples = (\<lambda>chn i. 0)\<rparr>"

record BasicDelayEffect =
  m_fs :: fp
  m_maxdelay :: nat
  m_nrOfChns :: nat
  m_buffer :: AudioBuffer
  m_writePos :: nat
  m_delays :: "real list"
  m_switchalgorithm :: switchAlgorithm
  m_switchTime :: nat
  m_switchCounter :: "nat list"
  m_switchState :: "switchState list"
  m_newdelays :: "nat list"
  m_futuredelays :: "nat list"
  m_fadeInc :: "real list"
  m_oldOut :: "real list"
  m_feedback :: "real list"

text \<open>
  What the C++ leaves undefined is a value of its own: an index past the end of a
  vector, and a conversion of a floating-point value to \<^verbatim>\<open>size_t\<close> whose truncation
  does not fit.
\<close>

datatype fault = OutOfBounds | CastOutOfRange

text \<open>
  \<^verbatim>\<open>static_cast<size_t>\<close> of a floating-point value truncates towards zero; the result
  is defined when the value is finite and the truncated value is a \<^verbatim>\<open>size_t\<close>, taken as
  64 bits wide.
\<close>

definition to_size_t :: "fp \<Rightarrow> nat option" where
  "to_size_t a =
     (case a of
        Finite x \<Rightarrow> (if - 1 < x \<and> x < 2 ^ 64 then Some (nat \<lfloor>x\<rfloor>) else None)
      | PInf \<Rightarrow> None
      | NInf \<Rightarrow> None
      | NaN \<Rightarrow> None)"

text \<open>\<^verbatim>\<open>std::vector::resize\<close> with a fill value.\<close>

definition resizeVec :: "nat \<Rightarrow> 'a \<Rightarrow> 'a list \<Rightarrow> 'a list" where
  "resizeVec n v xs = take n xs @ replicate (n - length xs) v"

subsection \<open>Member functions whose bodies are not in the header\<close>

text \<open>
  Modelled from the spec: \<^verbatim>\<open>changeBufferSize\<close>, declared in line 45, has no body under
  src/. Spec section 3: changing the maximal delay or the channel count reallocates the
  ring of every channel and resets the write position to 0; buffers are reallocated only
  when the shape actually changes; the per-channel vectors are resized to the channel
  count, existing entries kept, new channels at delay 0, feedback 0, state normal.
\<close>

definition changeBufferSize :: "BasicDelayEffect \<Rightarrow> BasicDelayEffect" where
  "changeBufferSize s =
     (let n = m_nrOfChns s;
          s1 = (if numChannels (m_buffer s) = n \<and> numSamples (m_buffer s) = m_maxdelay s then s
                else s\<lparr>m_buffer := newBuffer n (m_maxdelay s), m_writePos := 0\<rparr>)
      in s1\<lparr>m_delays := resizeVec n 0 (m_delays s),
            m_switchCounter := resizeVec n 0 (m_switchCounter s),
            m_switchState := resizeVec n normal (m_switchState s),
            m_newdelays := resizeVec n 0 (m_newdelays s),
            m_futuredelays := resizeVec n 0 (m_futuredelays s),
            m_fadeInc := resizeVec n 0 (m_fadeInc s),
            m_oldOut := resizeVec n 0 (m_oldOut s),
            m_feedback := resizeVec n 0 (m_feedback s)\<rparr>)"

text \<open>
  Modelled from the spec: \<^verbatim>\<open>switchalgorithmChanged\<close>, declared in line 46, has no body
  under src/. Spec sections 3 and 4.3: changing the algorithm resets any transition in
  progress to the idle state, every channel back to normal.
\<close>

definition switchalgorithmChanged :: "BasicDelayEffect \<Rightarrow> BasicDelayEffect" where
  "switchalgorithmChanged s =
     s\<lparr>m_switchState := map (\<lambda>st. normal) (m_switchState s),
       m_switchCounter := map (\<lambda>c. 0) (m_switchCounter s),
       m_fadeInc := map (\<lambda>d. 0) (m_fadeInc s)\<rparr>"

text \<open>
  Modelled from the spec: the constructor \<^verbatim>\<open>BasicDelayEffect()\<close>, declared in line 30,
  has no body under src/. The members take their initialisers of lines 48 to 56 (maximal
  delay 1000, 2 channels, write position 0, tape algorithm, switch time 100), the vectors
  start empty and \<^verbatim>\<open>changeBufferSize\<close> gives them their size (spec section 3, lifecycle).
  \<^verbatim>\<open>m_fs\<close> has no initialiser: the sample rate, a finite number, is an argument here.
\<close>

definition BasicDelayEffect_new :: "real \<Rightarrow> BasicDelayEffect" where
  "BasicDelayEffect_new fs =
     changeBufferSize
       \<lparr>m_fs = Finite fs, m_maxdelay = 1000, m_nrOfChns = 2, m_buffer = newBuffer 0 0,
        m_writePos = 0, m_delays = [], m_switchalgorithm = tape, m_switchTime = 100,
        m_switchCounter = [], m_switchState = [], m_newdelays = [], m_futuredelays = [],
        m_fadeInc = [], m_oldOut = [], m_feedback = []\<rparr>"

text \<open>
  Modelled from the spec: the length of a transition, which the absent bodies of
  \<^verbatim>\<open>setDelay\<close> and \<^verbatim>\<open>processSamples\<close> need. The digital algorithm jumps, so its
  duration is 0 whatever the switch time is; fade and tape take the switch time (spec
  section 4.3).
\<close>

definition effectiveSwitchTime :: "BasicDelayEffect \<Rightarrow> nat" where
  "effectiveSwitchTime s =
     (case m_switchalgorithm s of digital \<Rightarrow> 0 | fade \<Rightarrow> m_switchTime s | tape \<Rightarrow> m_switchTime s)"

text \<open>
  Modelled from the spec: the value the absent bodies give to \<^verbatim>\<open>m_fadeInc\<close>, the
  per-sample increment of a transition from the delay \<open>old\<close> to the delay \<open>new\<close> (spec
  section 3, \<open>fadeIncrement\<close>): the step of the mix weight for a crossfade, the step of
  the read delay for the tape ramp, which is linear in samples (spec section 9).
\<close>

definition transitionInc :: "BasicDelayEffect \<Rightarrow> real \<Rightarrow> nat \<Rightarrow> real" where
  "transitionInc s old new =
     (if effectiveSwitchTime s = 0 then 0
      else case m_switchalgorithm s of
             digital \<Rightarrow> 0
           | fade \<Rightarrow> 1 / real (m_switchTime s)
           | tape \<Rightarrow> (real new - old) / real (m_switchTime s))"

text \<open>
  Modelled from the spec: the start of a transition of a channel to the delay \<open>new\<close>,
  which the absent bodies of \<^verbatim>\<open>setDelay\<close> and \<^verbatim>\<open>processSamples\<close> both need. Spec section
  4.2: the pending delay is recorded and the counter reset to 0. Spec section 4.3: with
  a duration of 0 the transition is an instant jump, so the delay is active at once and
  the channel is normal; otherwise the channel is in changeTime.
\<close>

definition startTransition :: "nat \<Rightarrow> nat \<Rightarrow> BasicDelayEffect \<Rightarrow> BasicDelayEffect" where
  "startTransition chn new s =
     (let s1 = s\<lparr>m_newdelays := (m_newdelays s)[chn := new],
                 m_switchCounter := (m_switchCounter s)[chn := 0],
                 m_fadeInc := (m_fadeInc s)[chn := transitionInc s (m_delays s ! chn) new]\<rparr>
      in if effectiveSwitchTime s = 0
         then s1\<lparr>m_delays := (m_delays s)[chn := real new],
                 m_switchState := (m_switchState s)[chn := normal]\<rparr>
         else s1\<lparr>m_switchState := (m_switchState s)[chn := changeTime]\<rparr>)"

text \<open>
  Modelled from the spec: \<^verbatim>\<open>setDelay\<close>, declared in line 36, has no body under src/.
  Spec section 7: a delay of at least the capacity and a channel index out of range are
  rejected and leave the state as it is. Spec section 4.2: in any state a request equal
  to the active delay is a no-op; in the normal state any other request starts a
  transition; during a transition any other request is queued as the future delay and
  leaves the transition in flight untouched (sections 3 and 4.2: a delay requested again
  while a transition is in progress is queued and applied after it).
\<close>

definition setDelay :: "nat \<Rightarrow> nat \<Rightarrow> BasicDelayEffect \<Rightarrow> BasicDelayEffect" where
  "setDelay delay chn s =
     (if m_nrOfChns s \<le> chn \<or> m_maxdelay s \<le> delay then s
      else if real delay = m_delays s ! chn then s
      else case m_switchState s ! chn of
             normal \<Rightarrow> startTransition chn delay s
           | changeTime \<Rightarrow>
               s\<lparr>m_futuredelays := (m_futuredelays s)[chn := delay],
                 m_switchState := (m_switchState s)[chn := futureValueSet]\<rparr>
           | futureValueSet \<Rightarrow>
               s\<lparr>m_futuredelays := (m_futuredelays s)[chn := delay]\<rparr>)"

subsection \<open>The inline setters, lines 31 to 43\<close>

text \<open>
  \<^verbatim>\<open>setMaxDelay_s\<close> and \<^verbatim>\<open>setDelay_s\<close>, lines 32 and 37, compute
  \<^verbatim>\<open>static_cast<size_t>(delay_s*m_fs)\<close>: the product of two \<^verbatim>\<open>float\<close> values is a
  \<^verbatim>\<open>float\<close>, the exact product rounded, and the conversion truncates it.
\<close>

definition setMaxDelay :: "nat \<Rightarrow> BasicDelayEffect \<Rightarrow> BasicDelayEffect" where
  "setMaxDelay maxdelay s = changeBufferSize (s\<lparr>m_maxdelay := maxdelay\<rparr>)"

definition setMaxDelay_s :: "fp \<Rightarrow> BasicDelayEffect \<Rightarrow> fault + BasicDelayEffect" where
  "setMaxDelay_s delay_s s =
     (case to_size_t (fmul roundFloat delay_s (m_fs s)) of
        None \<Rightarrow> Inl CastOutOfRange
      | Some delay \<Rightarrow> Inr (setMaxDelay delay s))"

definition setNrOfChns :: "nat \<Rightarrow> BasicDelayEffect \<Rightarrow> BasicDelayEffect" where
  "setNrOfChns chns s = changeBufferSize (s\<lparr>m_nrOfChns := chns\<rparr>)"

definition setSamplerate :: "fp \<Rightarrow> BasicDelayEffect \<Rightarrow> BasicDelayEffect" where
  "setSamplerate fs s = s\<lparr>m_fs := fs\<rparr>"

definition setDelay_s :: "fp \<Rightarrow> nat \<Rightarrow> BasicDelayEffect \<Rightarrow> fault + BasicDelayEffect" where
  "setDelay_s delay_s chn s =
     (case to_size_t (fmul roundFloat delay_s (m_fs s)) of
        None \<Rightarrow> Inl CastOutOfRange
      | Some delay \<Rightarrow> Inr (setDelay delay chn s))"


definition setSwitchAlgorithm :: "switchAlgorithm \<Rightarrow> BasicDelayEffect \<Rightarrow> BasicDelayEffect" where
  "setSwitchAlgorithm algo s = switchalgorithmChanged (s\<lparr>m_switchalgorithm := algo\<rparr>)"

text \<open>
  \<^verbatim>\<open>setFeedback\<close>, line 43, is \<^verbatim>\<open>m_feedback[chn] = feedback\<close>: \<^verbatim>\<open>operator[]\<close> of
  \<^verbatim>\<open>std::vector\<close> checks nothing, and an index past the end is undefined behaviour.
\<close>

definition setFeedback :: "real \<Rightarrow> nat \<Rightarrow> BasicDelayEffect \<Rightarrow> fault + BasicDelayEffect" where
  "setFeedback feedback chn s =
     (if chn < length (m_feedback s)
      then Inr (s\<lparr>m_feedback := (m_feedback s)[chn := feedback]\<rparr>)
      else Inl OutOfBounds)"

subsection \<open>Block processing\<close>

text \<open>
  \<^verbatim>\<open>processSamples\<close>, declared in line 39, has no body under src/. Every definition of
  this subsection is a part of it, modelled from spec sections 4.1 to 4.4.

  Modelled from the spec: the read position of the absent \<^verbatim>\<open>processSamples\<close>, section
  4.1: \<open>(writePosition - delay + maxDelaySamples) mod maxDelaySamples\<close>, computed on
  integers, and the read of a ring at a whole delay.
\<close>

definition ringPos :: "nat \<Rightarrow> nat \<Rightarrow> nat \<Rightarrow> nat" where
  "ringPos len wp d = nat ((int wp - int d + int len) mod int len)"

definition ringRead :: "BasicDelayEffect \<Rightarrow> nat \<Rightarrow> nat \<Rightarrow> real" where
  "ringRead s chn d = getSample (m_buffer s) chn (ringPos (m_maxdelay s) (m_writePos s) d)"

text \<open>
  Modelled from the spec: \<open>readAt\<close> of the absent \<^verbatim>\<open>processSamples\<close>, section 4.1: the
  sample at the delay, interpolated linearly between the two neighbouring positions when
  the delay is fractional.
\<close>

definition readAt :: "BasicDelayEffect \<Rightarrow> nat \<Rightarrow> real \<Rightarrow> real" where
  "readAt s chn delaySamples =
     (let k = nat \<lfloor>delaySamples\<rfloor>;
          frac = delaySamples - real k
      in if frac = 0 then ringRead s chn k
         else (1 - frac) * ringRead s chn k + frac * ringRead s chn (k + 1))"

text \<open>
  Modelled from the spec: \<open>write\<close> of the absent \<^verbatim>\<open>processSamples\<close>, section 4.1 (a
  reserved word here, hence the longer name): the sample goes to the write position of
  the channel's ring.
\<close>

definition writeRing :: "nat \<Rightarrow> real \<Rightarrow> BasicDelayEffect \<Rightarrow> BasicDelayEffect" where
  "writeRing chn x s = s\<lparr>m_buffer := setSample (m_buffer s) chn (m_writePos s) x\<rparr>"

text \<open>
  Modelled from the spec: the output of a channel in the absent \<^verbatim>\<open>processSamples\<close>,
  section 4.3. In the normal state it is the read at the active delay. During a
  transition: digital reads at the pending delay; fade mixes the read at
  the old delay and the read at the new one, the weight of the new one growing by the
  increment each sample; tape reads once at the active delay, which itself moves by the
  increment each sample. With a duration of 0, fade and tape behave as digital.
\<close>

definition switchedRead :: "BasicDelayEffect \<Rightarrow> nat \<Rightarrow> real" where
  "switchedRead s chn =
     (let old = m_delays s ! chn;
          new = real (m_newdelays s ! chn)
      in if m_switchState s ! chn = normal then readAt s chn old
         else if effectiveSwitchTime s = 0 then readAt s chn new
         else case m_switchalgorithm s of
                digital \<Rightarrow> readAt s chn new
              | fade \<Rightarrow>
                  (let g = real (m_switchCounter s ! chn) * (m_fadeInc s ! chn)
                   in (1 - g) * readAt s chn old + g * readAt s chn new)
              | tape \<Rightarrow> readAt s chn old)"

text \<open>
  Modelled from the spec: steps (1) to (4) of the absent \<^verbatim>\<open>processSamples\<close>, section
  4.4, for one channel of one frame: write the input plus the fed-back previous output
  into the ring, resolve the output, keep it as previous output, and put it into the
  block in place.
\<close>

definition processChannel ::
  "nat \<Rightarrow> nat \<Rightarrow> AudioBuffer \<times> BasicDelayEffect \<Rightarrow> AudioBuffer \<times> BasicDelayEffect" where
  "processChannel frame chn ds =
     (let data = fst ds; s = snd ds;
          x = getSample data chn frame;
          s1 = writeRing chn (x + m_feedback s ! chn * m_oldOut s ! chn) s;
          y = switchedRead s1 chn
      in (setSample data chn frame y, s1\<lparr>m_oldOut := (m_oldOut s1)[chn := y]\<rparr>))"

text \<open>
  Modelled from the spec: step (6) of the absent \<^verbatim>\<open>processSamples\<close>, section 4.4, with
  the transitions of section 4.2, for one channel: the counter advances; when it reaches
  the duration, the pending delay becomes the active one, and either the queued delay
  starts the next transition, or the channel is back to normal.
\<close>

definition advanceChannel :: "nat \<Rightarrow> BasicDelayEffect \<Rightarrow> BasicDelayEffect" where
  "advanceChannel chn s =
     (if m_switchState s ! chn = normal then s
      else
        let cnt = m_switchCounter s ! chn + 1 in
        if effectiveSwitchTime s \<le> cnt then
          (let reached = real (m_newdelays s ! chn);
               s1 = s\<lparr>m_delays := (m_delays s)[chn := reached]\<rparr>
           in if m_switchState s ! chn = futureValueSet
              then startTransition chn (m_futuredelays s ! chn) s1
              else s1\<lparr>m_switchCounter := (m_switchCounter s)[chn := cnt],
                      m_switchState := (m_switchState s)[chn := normal]\<rparr>)
        else
          s\<lparr>m_switchCounter := (m_switchCounter s)[chn := cnt],
            m_delays := (if m_switchalgorithm s = tape
                         then (m_delays s)[chn := m_delays s ! chn + m_fadeInc s ! chn]
                         else m_delays s)\<rparr>)"

text \<open>
  Modelled from the spec: one frame of the absent \<^verbatim>\<open>processSamples\<close>, section 4.4: the
  channels of the block in order, then step (5), the write position advanced once and
  wrapped, then step (6) for every channel of the delay line.
\<close>

definition processFrame ::
  "nat \<Rightarrow> AudioBuffer \<times> BasicDelayEffect \<Rightarrow> AudioBuffer \<times> BasicDelayEffect" where
  "processFrame frame ds =
     (let ds1 = fold (processChannel frame) [0..<numChannels (fst ds)] ds;
          s1 = snd ds1;
          s2 = s1\<lparr>m_writePos := (m_writePos s1 + 1) mod m_maxdelay s1\<rparr>
      in (fst ds1, fold advanceChannel [0..<m_nrOfChns s2] s2))"

text \<open>
  Modelled from the spec: the check of the absent \<^verbatim>\<open>processSamples\<close>, section 4.4. The
  shape of a block fits the delay line when it has at least one channel, no more
  channels than are configured, and the rings are not empty. The spec names no condition
  on the frame count, so a block of any length fits.
\<close>

definition shapeFits :: "AudioBuffer \<Rightarrow> BasicDelayEffect \<Rightarrow> bool" where
  "shapeFits data s =
     (0 < numChannels data \<and> numChannels data \<le> m_nrOfChns s \<and> 0 < m_maxdelay s)"

text \<open>
  Modelled from the spec: \<^verbatim>\<open>processSamples\<close>, declared in line 39, with no body under
  src/ (section 4.4): the status code, the block and the delay line afterwards. A block
  whose shape does not fit is answered with a non-zero status and nothing is touched
  (section 7); otherwise the frames are processed in order and the status is 0.
\<close>

definition processSamples ::
  "AudioBuffer \<Rightarrow> BasicDelayEffect \<Rightarrow> int \<times> AudioBuffer \<times> BasicDelayEffect" where
  "processSamples data s =
     (if \<not> shapeFits data s then (1, data, s)
      else (0, fold processFrame [0..<numSamples data] (data, s)))"

text \<open>
  The invariant of the class (spec section 3): every per-channel vector has one entry
  per channel, the ring has the configured shape, and the write position is inside the
  ring.
\<close>

definition consistent :: "BasicDelayEffect \<Rightarrow> bool" where
  "consistent s =
     (length (m_delays s) = m_nrOfChns s \<and>
      length (m_switchCounter s) = m_nrOfChns s \<and>
      length (m_switchState s) = m_nrOfChns s \<and>
      length (m_newdelays s) = m_nrOfChns s \<and>
      length (m_futuredelays s) = m_nrOfChns s \<and>
      length (m_fadeInc s) = m_nrOfChns s \<and>
      length (m_oldOut s) = m_nrOfChns s \<and>
      length (m_feedback s) = m_nrOfChns s \<and>
      numChannels (m_buffer s) = m_nrOfChns s \<and>
      numSamples (m_buffer s) = m_maxdelay s \<and>
      m_writePos s < max 1 (m_maxdelay s))"

subsection \<open>Notions used in the proofs\<close>

text \<open>
  The state machine of one channel, read out of the per-channel vectors, and the start
  of a transition and one step of it as \<open>startTransition\<close> and \<open>advanceChannel\<close> perform
  them on the channel's entries.
\<close>

record chan =
  c_delay :: real
  c_state :: switchState
  c_counter :: nat
  c_new :: nat
  c_future :: nat
  c_inc :: real

definition chanOf :: "BasicDelayEffect \<Rightarrow> nat \<Rightarrow> chan" where
  "chanOf s chn =
     \<lparr>c_delay = m_delays s ! chn, c_state = m_switchState s ! chn,
      c_counter = m_switchCounter s ! chn, c_new = m_newdelays s ! chn,
      c_future = m_futuredelays s ! chn, c_inc = m_fadeInc s ! chn\<rparr>"

definition chanStart :: "BasicDelayEffect \<Rightarrow> nat \<Rightarrow> chan \<Rightarrow> chan" where
  "chanStart s new ch =
     (if effectiveSwitchTime s = 0
      then ch\<lparr>c_new := new, c_counter := 0, c_inc := transitionInc s (c_delay ch) new,
              c_delay := real new, c_state := normal\<rparr>
      else ch\<lparr>c_new := new, c_counter := 0, c_inc := transitionInc s (c_delay ch) new,
              c_state := changeTime\<rparr>)"

definition chanStep :: "BasicDelayEffect \<Rightarrow> chan \<Rightarrow> chan" where
  "chanStep s ch =
     (if c_state ch = normal then ch
      else if effectiveSwitchTime s \<le> c_counter ch + 1 then
        (if c_state ch = futureValueSet
         then chanStart s (c_future ch) (ch\<lparr>c_delay := real (c_new ch)\<rparr>)
         else ch\<lparr>c_delay := real (c_new ch), c_counter := c_counter ch + 1,
                 c_state := normal\<rparr>)
      else ch\<lparr>c_counter := c_counter ch + 1,
              c_delay := (if m_switchalgorithm s = tape then c_delay ch + c_inc ch
                          else c_delay ch)\<rparr>)"

text \<open>Two delay lines have the same configuration when their scalar settings and gains agree.\<close>

definition sameConfig :: "BasicDelayEffect \<Rightarrow> BasicDelayEffect \<Rightarrow> bool" where
  "sameConfig s s' =
     (m_fs s' = m_fs s \<and> m_maxdelay s' = m_maxdelay s \<and> m_nrOfChns s' = m_nrOfChns s \<and>
      m_switchalgorithm s' = m_switchalgorithm s \<and> m_switchTime s' = m_switchTime s \<and>
      m_feedback s' = m_feedback s)"

text \<open>Two delay lines have the same state machines when the six vectors of the machine agree.\<close>

definition sameMachine :: "BasicDelayEffect \<Rightarrow> BasicDelayEffect \<Rightarrow> bool" where
  "sameMachine s s' =
     (m_delays s' = m_delays s \<and> m_switchCounter s' = m_switchCounter s \<and>
      m_switchState s' = m_switchState s \<and> m_newdelays s' = m_newdelays s \<and>
      m_futuredelays s' = m_futuredelays s \<and> m_fadeInc s' = m_fadeInc s)"

text \<open>
  With the digital algorithm a channel reads at the delay \<open>d\<close> when it is normal with
  active delay \<open>d\<close> or in changeTime with pending delay \<open>d\<close>.
\<close>

definition targets :: "chan \<Rightarrow> nat \<Rightarrow> bool" where
  "targets ch d =
     (c_state ch = normal \<and> c_delay ch = real d \<or> c_state ch = changeTime \<and> c_new ch = d)"

text \<open>
  The input of a channel delayed by \<open>d\<close> frames: from frame \<open>d\<close> on the input of \<open>d\<close>
  frames earlier, before that what the ring held when the block began.
\<close>

definition delayedBy ::
  "AudioBuffer \<Rightarrow> BasicDelayEffect \<Rightarrow> nat \<Rightarrow> nat \<Rightarrow> nat \<Rightarrow> real" where
  "delayedBy data s chn d k =
     (if d \<le> k then getSample data chn (k - d)
      else getSample (m_buffer s) chn ((m_writePos s + k + m_maxdelay s - d) mod m_maxdelay s))"

subsection \<open>Runs of blocks\<close>

text \<open>
  Modelled from the spec: the caller of \<^verbatim>\<open>processSamples\<close>, which is not among the
  sources. Spec section 4.4 has the function called once per audio block. A run over
  several blocks threads the delay line through the calls and collects the status and
  the output block of each.
\<close>

fun processBlocks ::
  "AudioBuffer list \<Rightarrow> BasicDelayEffect \<Rightarrow> int list \<times> AudioBuffer list \<times> BasicDelayEffect" where
  "processBlocks [] s = ([], [], s)"
| "processBlocks (b # bs) s =
     (let r = processSamples b s;
          rs = processBlocks bs (snd (snd r))
      in (fst r # fst rs, fst (snd r) # fst (snd rs), snd (snd rs)))"

text \<open>
  The blocks of a run read as one stream: the sample of a channel at a frame counted
  from the start of the first block, and the number of frames of the run.
\<close>

fun streamAt :: "AudioBuffer list \<Rightarrow> nat \<Rightarrow> nat \<Rightarrow> real" where
  "streamAt [] chn k = 0"
| "streamAt (b # bs) chn k =
     (if k < numSamples b then getSample b chn k else streamAt bs chn (k - numSamples b))"

definition streamLength :: "AudioBuffer list \<Rightarrow> nat" where
  "streamLength bs = sum_list (map numSamples bs)"

text \<open>
  The input stream of a channel delayed by \<open>d\<close> frames: from frame \<open>d\<close> on the input of
  \<open>d\<close> frames earlier, before that what the ring held when the run began.
\<close>

definition streamDelayedBy ::
  "AudioBuffer list \<Rightarrow> BasicDelayEffect \<Rightarrow> nat \<Rightarrow> nat \<Rightarrow> nat \<Rightarrow> real" where
  "streamDelayedBy bs s chn d k =
     (if d \<le> k then streamAt bs chn (k - d)
      else getSample (m_buffer s) chn ((m_writePos s + k + m_maxdelay s - d) mod m_maxdelay s))"

subsection \<open>Delay lines used as examples\<close>



text \<open>
  The scenario of spec section 8: sample rate 48000, a maximal delay of one second, one
  channel.
\<close>

definition scenarioLine :: BasicDelayEffect where
  "scenarioLine =
     setNrOfChns 1 (setMaxDelay 48000 (setSamplerate (Finite 48000) (BasicDelayEffect_new 44100)))"

text \<open>
  A delay line with the digital algorithm selected, and a run of two blocks with a unit
  impulse at the first frame of the first.
\<close>

definition digitalLine :: BasicDelayEffect where
  "digitalLine = setSwitchAlgorithm digital (BasicDelayEffect_new 44100)"

definition impulseBlocks :: "AudioBuffer list" where
  "impulseBlocks =
     [\<lparr>numChannels = 1, numSamples = 2, samples = (\<lambda>chn k. if k = 0 then 1 else 0)\<rparr>,
      newBuffer 1 4]"

section \<open>Facts about the floating-point formats\<close>

lemma roundEven_of_int [simp]: "roundEven (of_int k) = k"
  by (simp add: roundEven_def)

lemma floor_log2_eq:
  assumes "2 powi e \<le> \<bar>x\<bar>" and "\<bar>x\<bar> < 2 powi (e + 1)"
  shows "\<lfloor>log 2 \<bar>x\<bar>\<rfloor> = e"
proof -
  have "0 < (2::real) powi e" by (rule zero_less_power_int) simp
  then have pos: "0 < \<bar>x\<bar>" using assms(1) by linarith
  have a: "(2::real) powr of_int e = 2 powi e"
    by (rule powr_real_of_int') simp_all
  have "(2::real) powr of_int (e + 1) = 2 powi (e + 1)"
    by (rule powr_real_of_int') simp_all
  moreover have "real_of_int (e + 1) = of_int e + 1" by simp
  ultimately have b: "(2::real) powr (of_int e + 1) = 2 powi (e + 1)"
    by (simp only:)
  have "(2::real) powr of_int e \<le> \<bar>x\<bar> \<and> \<bar>x\<bar> < 2 powr (of_int e + 1)"
    unfolding a b using assms by simp
  then show ?thesis
    using floor_log_eq_powr_iff [OF pos, of 2 e] by simp
qed

lemma maxFinite_pos: "0 < p \<Longrightarrow> 0 < maxFinite p emax"
proof -
  assume "0 < p"
  then have "1 - int p \<le> 0" by simp
  then have "(2::real) powi (1 - int p) \<le> 2 powi 0"
    by (intro power_int_increasing) simp_all
  then have "(2::real) powi (1 - int p) \<le> 1" by simp
  then show ?thesis
    by (simp add: maxFinite_def zero_less_mult_iff)
qed

lemma fround_zero: "0 < p \<Longrightarrow> fround p emin emax 0 = Finite 0"
  using maxFinite_pos [of p emax] by (simp add: fround_def roundTo_def)

lemma roundDouble_zero [simp]: "roundDouble 0 = Finite 0"
  by (simp add: roundDouble_def fround_zero)

lemma roundFloat_zero [simp]: "roundFloat 0 = Finite 0"
  by (simp add: roundFloat_def fround_zero)

lemma isDouble_zero [simp]: "isDouble 0"
  by (simp add: isDouble_def)

lemma fround_eval:
  assumes "2 powi e \<le> \<bar>x\<bar>" and "\<bar>x\<bar> < 2 powi (e + 1)"
    and "roundEven (x / 2 powi (max e emin - (int p - 1))) = k"
    and "\<bar>of_int k * 2 powi (max e emin - (int p - 1))\<bar> \<le> maxFinite p emax"
  shows "fround p emin emax x = Finite (of_int k * 2 powi (max e emin - (int p - 1)))"
proof -
  have u: "ulpExp p emin x = max e emin - (int p - 1)"
    by (simp add: ulpExp_def floor_log2_eq [OF assms(1,2)])
  have "0 < (2::real) powi e" by (rule zero_less_power_int) simp
  then have "0 < \<bar>x\<bar>" using assms(1) by linarith
  then have nz: "x \<noteq> 0" by simp
  have "roundTo p emin x = of_int k * 2 powi (max e emin - (int p - 1))"
    unfolding roundTo_def u using nz assms(3) by simp
  then show ?thesis
    using assms(4) by (simp add: fround_def)
qed

lemma fround_exact:
  assumes "2 powi e \<le> \<bar>x\<bar>" and "\<bar>x\<bar> < 2 powi (e + 1)"
    and "x = of_int k * 2 powi (max e emin - (int p - 1))" and "\<bar>x\<bar> \<le> maxFinite p emax"
  shows "fround p emin emax x = Finite x"
proof -
  have "x / 2 powi (max e emin - (int p - 1)) = of_int k"
    by (subst assms(3)) simp
  then have r: "roundEven (x / 2 powi (max e emin - (int p - 1))) = k"
    by simp
  have m: "\<bar>of_int k * 2 powi (max e emin - (int p - 1))\<bar> \<le> maxFinite p emax"
    using assms(3,4) by simp
  show ?thesis
    using fround_eval [OF assms(1,2) r m] assms(3) by simp
qed

lemma isDouble_1: "isDouble 1"
  unfolding isDouble_def roundDouble_def
  by (rule fround_exact [where e = 0 and k = "2 ^ 52"]) (simp_all add: maxFinite_def)

lemma isDouble_3: "isDouble 3"
  unfolding isDouble_def roundDouble_def
  by (rule fround_exact [where e = 1 and k = "3 * 2 ^ 51"]) (simp_all add: maxFinite_def)

lemma isFloat_24000: "isFloat 24000"
  unfolding isFloat_def roundFloat_def
  by (rule fround_exact [where e = 14 and k = "24000 * 2 ^ 9"]) (simp_all add: maxFinite_def)

lemma isFloat_48000: "isFloat 48000"
  unfolding isFloat_def roundFloat_def
  by (rule fround_exact [where e = 15 and k = "48000 * 2 ^ 8"]) (simp_all add: maxFinite_def)

lemma isFloat_44100: "isFloat 44100"
  unfolding isFloat_def roundFloat_def
  by (rule fround_exact [where e = 15 and k = "44100 * 2 ^ 8"]) (simp_all add: maxFinite_def)

lemma isFloat_half: "isFloat (1 / 2)"
  unfolding isFloat_def roundFloat_def
  by (rule fround_exact [where e = "- 1" and k = "2 ^ 23"]) (simp_all add: maxFinite_def)

lemma isFloat_128th: "isFloat (1 / 128)"
  unfolding isFloat_def roundFloat_def
  by (rule fround_exact [where e = "- 7" and k = "2 ^ 23"]) (simp_all add: maxFinite_def)

lemma isFloat_44100_128th: "isFloat (44100 / 128)"
  unfolding isFloat_def roundFloat_def
  by (rule fround_exact [where e = 8 and k = "11289600"]) (simp_all add: maxFinite_def)

lemma isFloat_hundredth: "isFloat (10737418 / 2 ^ 30)"
  unfolding isFloat_def roundFloat_def
  by (rule fround_exact [where e = "- 7" and k = "10737418"]) (simp_all add: maxFinite_def)

text \<open>
  The \<^verbatim>\<open>float\<close> nearest to 0.01 is \<open>10737418 / 2\<^sup>3\<^sup>0\<close>, a little less than 0.01. Its
  product with 44100 is a little less than 441 and rounds to 441.
\<close>

lemma hundredth_times_44100: "roundFloat (10737418 / 2 ^ 30 * 44100) = Finite 441"
proof -
  have "fround 24 (- 126) 127 (10737418 / 2 ^ 30 * 44100) =
      Finite (of_int 14450688 * 2 powi (max 8 (- 126) - (int 24 - 1)))"
    by (rule fround_eval) (simp_all add: roundEven_def maxFinite_def)
  then show ?thesis
    by (simp add: roundFloat_def)
qed

lemma hundredth_times_44100_exact: "nat \<lfloor>10737418 / 2 ^ 30 * 44100 :: real\<rfloor> = 440"
  by simp

lemma float_is_double:
  assumes "isFloat x"
  shows "isDouble x"
proof (cases "x = 0")
  case True
  then show ?thesis by simp
next
  case False
  define e where "e = \<lfloor>log 2 \<bar>x\<bar>\<rfloor>"
  define q where "q = max e (- 126) - 23"
  define q' where "q' = max e (- 1022) - 52"
  define k where "k = roundEven (x / 2 powi q)"
  have fl: "fround 24 (- 126) 127 x = Finite x"
    using assms by (simp add: isFloat_def roundFloat_def)
  have rt: "roundTo 24 (- 126) x = of_int k * 2 powi q"
    using False by (simp add: roundTo_def ulpExp_def e_def q_def k_def)
  have small: "\<not> maxFinite 24 127 < \<bar>roundTo 24 (- 126) x\<bar>"
    using fl by (auto simp add: fround_def Let_def split: if_splits)
  have same: "roundTo 24 (- 126) x = x"
    using fl small by (simp add: fround_def Let_def)
  have x: "x = of_int k * 2 powi q"
    using rt same by simp
  have le: "q' \<le> q" unfolding q_def q'_def by linarith
  have split: "(2::real) powi q = 2 powi (q - q') * 2 powi q'"
    by (simp flip: power_int_add)
  define K where "K = k * 2 ^ nat (q - q')"
  have pw: "(2::real) powi (q - q') = 2 ^ nat (q - q')"
    using le by (simp add: power_int_def)
  have K: "real_of_int K = of_int k * 2 powi (q - q')"
    by (simp add: K_def pw)
  have "x / 2 powi q' = of_int k * 2 powi (q - q')"
    by (subst x) (simp add: split)
  then have "x / 2 powi q' = of_int K"
    by (simp only: K)
  then have "roundEven (x / 2 powi q') = K"
    by (simp only: roundEven_of_int)
  then have "roundTo 53 (- 1022) x = of_int K * 2 powi q'"
    using False by (simp add: roundTo_def ulpExp_def e_def q'_def)
  also have "\<dots> = of_int k * (2 powi (q - q') * 2 powi q')"
    by (simp only: K mult.assoc)
  also have "\<dots> = x"
    using x split by simp
  finally have rd: "roundTo 53 (- 1022) x = x" .
  have "maxFinite 24 127 \<le> maxFinite 53 1023"
    by (simp add: maxFinite_def)
  then have "\<not> maxFinite 53 1023 < \<bar>x\<bar>"
    using small same by simp
  then show ?thesis
    by (simp add: isDouble_def roundDouble_def fround_def rd)
qed

section \<open>Facts about FirstOrderFilter\<close>

lemma computeCoeffs_state [simp]: "m_state (computeCoeffs f) = m_state f"
  by (cases "m_design f") (simp_all add: computeCoeffs_def Let_def)

lemma computeCoeffs_params [simp]:
  "FirstOrderFilter.m_fs (computeCoeffs f) = FirstOrderFilter.m_fs f"
  "m_cutoff (computeCoeffs f) = m_cutoff f"
  "m_gain_db (computeCoeffs f) = m_gain_db f"
  "m_design (computeCoeffs f) = m_design f"
  by (cases "m_design f"; simp add: computeCoeffs_def Let_def)+

lemma computeCoeffs_idem: "computeCoeffs (computeCoeffs f) = computeCoeffs f"
  by (cases "m_design f") (simp_all add: computeCoeffs_def Let_def)

lemma computeCoeffs_reset: "computeCoeffs (reset f) = reset (computeCoeffs f)"
  by (cases "m_design f") (simp_all add: computeCoeffs_def reset_def Let_def)

lemma computeCoeffs_none:
  "m_design f = none \<Longrightarrow> computeCoeffs f = f\<lparr>m_b0 := 1, m_b1 := 0, m_a1 := 0\<rparr>"
  by (simp add: computeCoeffs_def)

lemma coeffsCurrent_computeCoeffs: "coeffsCurrent (computeCoeffs f)"
  by (simp add: coeffsCurrent_def computeCoeffs_idem)

lemma coeffsCurrent_reset: "coeffsCurrent f \<Longrightarrow> coeffsCurrent (reset f)"
  by (simp add: coeffsCurrent_def computeCoeffs_reset)

lemma computeCoeffs_state_update:
  "computeCoeffs (f\<lparr>m_state := st\<rparr>) = (computeCoeffs f)\<lparr>m_state := st\<rparr>"
  by (cases "m_design f") (simp_all add: computeCoeffs_def Let_def)

lemma coeffsCurrent_state: "coeffsCurrent f \<Longrightarrow> coeffsCurrent (f\<lparr>m_state := st\<rparr>)"
  by (simp add: coeffsCurrent_def computeCoeffs_state_update)

lemma coeffsCurrent_default: "coeffsCurrent FirstOrderFilter_default"
  unfolding FirstOrderFilter_default_def
  by (rule coeffsCurrent_reset) (rule coeffsCurrent_computeCoeffs)

lemma none_coeffs:
  assumes "m_design f = none" and "coeffsCurrent f"
  shows "m_b0 f = 1" and "m_b1 f = 0" and "m_a1 f = 0"
proof -
  have "f = f\<lparr>m_b0 := 1, m_b1 := 0, m_a1 := 0\<rparr>"
    using assms computeCoeffs_none [of f] by (simp add: coeffsCurrent_def)
  then have "m_b0 f = m_b0 (f\<lparr>m_b0 := 1, m_b1 := 0, m_a1 := 0\<rparr>)"
    and "m_b1 f = m_b1 (f\<lparr>m_b0 := 1, m_b1 := 0, m_a1 := 0\<rparr>)"
    and "m_a1 f = m_a1 (f\<lparr>m_b0 := 1, m_b1 := 0, m_a1 := 0\<rparr>)"
    by simp_all
  then show "m_b0 f = 1" and "m_b1 f = 0" and "m_a1 f = 0"
    by simp_all
qed

lemma default_design: "m_design FirstOrderFilter_default = none"
  by (simp add: FirstOrderFilter_default_def reset_def)

lemma isFloat_3: "isFloat 3"
  unfolding isFloat_def roundFloat_def
  by (rule fround_exact [where e = 1 and k = "3 * 2 ^ 22"]) (simp_all add: maxFinite_def)

lemma floatValue_doubleValue: "floatValue x \<Longrightarrow> doubleValue x"
  by (cases x) (simp_all add: floatValue_def doubleValue_def float_is_double)

text \<open>One sample through a filter with \<open>b0 = 1\<close> and \<open>a1 = b1 = 0\<close>.\<close>

lemma none_instate:
  assumes "m_a1 f = 0" and "m_state f = Finite s" and "doubleValue x"
  shows "fsub roundDouble x (fmul roundDouble (Finite (m_a1 f)) (m_state f)) = x"
  using assms by (cases x) (simp_all add: fsub_def doubleValue_def isDouble_def)

lemma none_output:
  assumes "m_b0 f = 1" and "m_b1 f = 0" and "m_state f = Finite s" and "doubleValue x"
  shows "fadd roundDouble (fmul roundDouble x (Finite (m_b0 f)))
           (fmul roundDouble (m_state f) (Finite (m_b1 f))) = x"
  using assms by (cases x) (simp_all add: doubleValue_def isDouble_def infOfSign_def)

lemma none_sample:
  assumes "m_b0 f = 1" and "m_b1 f = 0" and "m_a1 f = 0"
    and "m_state f = Finite s" and "doubleValue x"
  shows "processOneSample x f = (x, f\<lparr>m_state := x\<rparr>)"
  unfolding processOneSample_def Let_def none_instate [OF assms(3,4,5)]
  by (simp only: none_output [OF assms(1,2,4,5)])

lemma none_sample_float:
  assumes "m_b0 f = 1" and "m_b1 f = 0" and "m_a1 f = 0"
    and "m_state f = Finite s" and "floatValue x"
  shows "processOneSample_float x f = (x, f\<lparr>m_state := x\<rparr>)"
proof -
  have d: "doubleValue x"
    using assms(5) by (rule floatValue_doubleValue)
  have "toFloat x = x"
    using assms(5) by (cases x) (simp_all add: toFloat_def floatValue_def isFloat_def)
  then show ?thesis
    unfolding processOneSample_float_def Let_def none_instate [OF assms(3,4) d]
    by (simp only: none_output [OF assms(1,2,4) d])
qed

text \<open>With a state that is not finite, the product \<open>a1 * state\<close> is \<open>0 * \<infinity>\<close> or NaN.\<close>

lemma none_instate_lost:
  assumes "m_a1 f = 0" and "m_state f = PInf \<or> m_state f = NInf \<or> m_state f = NaN"
  shows "fsub roundDouble x (fmul roundDouble (Finite (m_a1 f)) (m_state f)) = NaN"
  using assms by (cases x) (auto simp add: fsub_def infOfSign_def)

lemma fadd_NaN_left: "fadd rnd NaN b = NaN"
  by (cases b) simp_all

lemma fmul_NaN_left: "fmul rnd NaN b = NaN"
  by (cases b) simp_all

lemma none_sample_lost:
  assumes "m_a1 f = 0" and "m_state f = PInf \<or> m_state f = NInf \<or> m_state f = NaN"
  shows "processOneSample x f = (NaN, f\<lparr>m_state := NaN\<rparr>)"
    and "processOneSample_float x f = (NaN, f\<lparr>m_state := NaN\<rparr>)"
  unfolding processOneSample_def processOneSample_float_def Let_def none_instate_lost [OF assms]
  by (simp_all add: fadd_NaN_left fmul_NaN_left toFloat_def)

text \<open>
  The loop of \<open>processData\<close> from the counter \<open>kk\<close> on, over a vector that the counter
  can index without wrapping and whose elements are finite, but for the last, which may
  be any value of the format.
\<close>

lemma none_loop:
  assumes "list_all doubleValue data" and "list_all finiteDouble (butlast data)"
    and "length data < 2 ^ 32"
  shows "n = length data - unat kk \<Longrightarrow> unat kk \<le> length data \<Longrightarrow>
    m_b0 f = 1 \<Longrightarrow> m_b1 f = 0 \<Longrightarrow> m_a1 f = 0 \<Longrightarrow> m_state f = Finite s \<Longrightarrow>
    processData_loop kk data f =
      Some (data, f\<lparr>m_state := (if unat kk < length data then last data else Finite s)\<rparr>)"
proof (induction n arbitrary: kk f s)
  case 0
  then have "\<not> unat kk < length data" by simp
  moreover have "f\<lparr>m_state := Finite s\<rparr> = f"
    using "0.prems"(6) by simp
  ultimately show ?case
    by (subst processData_loop.simps) simp
next
  case (Suc n)
  from Suc.prems(1) have lt: "unat kk < length data" by simp
  define x where "x = data ! unat kk"
  have dv: "doubleValue x"
    using assms(1) lt by (simp add: x_def list_all_length)
  define f' where "f' = f\<lparr>m_state := x\<rparr>"
  have "unat kk + unat (1 :: 32 word) < 2 ^ LENGTH(32)"
    using lt assms(3) by simp
  then have "unat (kk + 1) = unat kk + unat (1 :: 32 word)"
    by (simp only: unat_add_lem [THEN iffD1])
  then have next_kk: "unat (kk + 1) = unat kk + 1"
    by simp
  have upd: "data[unat kk := x] = data"
    by (simp add: x_def)
  have step: "processData_loop kk data f = processData_loop (kk + 1) data f'"
    by (subst processData_loop.simps)
      (simp add: lt Let_def x_def [symmetric] f'_def upd
        none_instate [OF Suc.prems(5,6) dv] none_output [OF Suc.prems(3,4,6) dv])
  have "processData_loop (kk + 1) data f' = Some (data, f\<lparr>m_state := last data\<rparr>)"
  proof (cases "unat (kk + 1) < length data")
    case True
    then have "unat kk < length (butlast data)"
      using next_kk by simp
    then have "finiteDouble (butlast data ! unat kk)" and "butlast data ! unat kk = x"
      using assms(2) by (simp_all add: list_all_length nth_butlast x_def)
    then obtain r where x: "x = Finite r"
      by (cases x) (simp_all add: finiteDouble_def)
    have "processData_loop (kk + 1) data f' =
        Some (data, f'\<lparr>m_state := (if unat (kk + 1) < length data then last data else Finite r)\<rparr>)"
    proof (rule Suc.IH)
      show "n = length data - unat (kk + 1)"
        using Suc.prems(1) next_kk by simp
      show "unat (kk + 1) \<le> length data"
        using lt next_kk by simp
      show "m_b0 f' = 1" "m_b1 f' = 0" "m_a1 f' = 0"
        using Suc.prems(3,4,5) by (simp_all add: f'_def)
      show "m_state f' = Finite r"
        by (simp add: f'_def x)
    qed
    then show ?thesis
      using True by (simp add: f'_def)
  next
    case False
    then have "unat kk = length data - 1"
      using lt next_kk by simp
    moreover have "data \<noteq> []"
      using lt by auto
    ultimately have "last data = x"
      by (simp add: x_def last_conv_nth)
    then have "f' = f\<lparr>m_state := last data\<rparr>"
      by (simp add: f'_def)
    then show ?thesis
      using False by (subst processData_loop.simps) simp
  qed
  then show ?case
    using step lt by simp
qed

lemma none_data:
  assumes "m_b0 f = 1" and "m_b1 f = 0" and "m_a1 f = 0" and "m_state f = Finite s"
    and "list_all doubleValue xs" and "list_all finiteDouble (butlast xs)"
    and "length xs < 2 ^ 32"
  shows "processData xs f =
    Some (0, xs, f\<lparr>m_state := (if xs = [] then Finite s else last xs)\<rparr>)"
proof -
  have "processData_loop 0 xs f =
      Some (xs, f\<lparr>m_state := (if unat (0 :: 32 word) < length xs then last xs else Finite s)\<rparr>)"
    by (rule none_loop [OF assms(5,6,7) refl _ assms(1,2,3,4)]) simp
  then show ?thesis
    by (simp add: processData_def)
qed

text \<open>
  The loop ends only on a vector that the 32-bit counter can run past: on \<open>2\<^sup>3\<^sup>2\<close> elements
  or more the counter wraps to 0 before it reaches the size.
\<close>

lemma processData_loop_ends_only_below:
  assumes "processData_loop kk data f = Some r"
  shows "length data < 2 ^ 32"
proof (rule processData_loop.raw_induct
    [where P = "\<lambda>kk data f r. length data < 2 ^ 32", OF _ assms])
  fix loop :: "32 word \<Rightarrow> fp list \<Rightarrow> FirstOrderFilter \<Rightarrow> (fp list \<times> FirstOrderFilter) option"
    and kk data f r
  assume IH: "\<And>kk data f r. loop kk data f = Some r \<Longrightarrow> length data < 2 ^ 32"
  assume body: "(if unat kk < length data
      then let instate =
                 fsub roundDouble (data ! unat kk)
                  (fmul roundDouble (Finite (m_a1 f)) (m_state f));
               y = fadd roundDouble
                    (fmul roundDouble instate (Finite (m_b0 f)))
                    (fmul roundDouble (m_state f) (Finite (m_b1 f)))
           in loop (kk + 1) (data[unat kk := y])
               (f\<lparr>m_state := instate\<rparr>)
      else Some (data, f)) = Some r"
  show "length data < 2 ^ 32"
  proof (cases "unat kk < length data")
    case True
    then have "\<exists>y st. loop (kk + 1) (data[unat kk := y]) st = Some r"
      using body by (auto simp add: Let_def)
    then obtain y st where "loop (kk + 1) (data[unat kk := y]) st = Some r"
      by blast
    then have "length (data[unat kk := y]) < 2 ^ 32"
      by (rule IH)
    then show ?thesis by simp
  next
    case False
    moreover have "unat kk < 2 ^ 32"
      using unsigned_less [of kk] by simp
    ultimately show ?thesis by simp
  qed
qed

lemma processData_loop_wraps: "2 ^ 32 \<le> length data \<Longrightarrow> processData_loop kk data f = None"
  using processData_loop_ends_only_below [of kk data f] by (cases "processData_loop kk data f") auto

lemma default_fields:
  "m_b0 FirstOrderFilter_default = 1" "m_b1 FirstOrderFilter_default = 0"
  "m_a1 FirstOrderFilter_default = 0" "m_state FirstOrderFilter_default = Finite 0"
  by (simp_all add: FirstOrderFilter_default_def computeCoeffs_def reset_def)

subsection \<open>The setters and the filter state\<close>

text \<open>
  Claim C4, as the code has it. Each of \<^verbatim>\<open>setCutoff\<close>, \<^verbatim>\<open>setSamplerate\<close>,
  \<^verbatim>\<open>setDesignroutine\<close> and \<^verbatim>\<open>setGainIndB\<close> stores its argument and leaves the coefficients
  up to date for the new parameters. Only \<^verbatim>\<open>setSamplerate\<close> puts the state variable back
  to 0; the other three leave it as it was, for every prior filter and every argument.
\<close>

theorem setters_recompute_and_only_setSamplerate_resets:
  "coeffsCurrent (setCutoff c f) \<and> m_cutoff (setCutoff c f) = c \<and>
     m_state (setCutoff c f) = m_state f \<and>
   coeffsCurrent (setDesignroutine d f) \<and> m_design (setDesignroutine d f) = d \<and>
     m_state (setDesignroutine d f) = m_state f \<and>
   coeffsCurrent (setGainIndB g f) \<and> m_gain_db (setGainIndB g f) = g \<and>
     m_state (setGainIndB g f) = m_state f \<and>
   coeffsCurrent (FirstOrderFilter_setSamplerate r f) \<and>
     FirstOrderFilter.m_fs (FirstOrderFilter_setSamplerate r f) = r \<and>
     m_state (FirstOrderFilter_setSamplerate r f) = Finite 0"
proof -
  have "coeffsCurrent (FirstOrderFilter_setSamplerate r f)"
    unfolding FirstOrderFilter_setSamplerate_def
    by (rule coeffsCurrent_reset) (rule coeffsCurrent_computeCoeffs)
  then show ?thesis
    by (simp add: setCutoff_def setDesignroutine_def setGainIndB_def
        FirstOrderFilter_setSamplerate_def coeffsCurrent_computeCoeffs reset_def)
qed

text \<open>
  Claim C4 as it is stated fails: a default filter that has processed the sample 1 holds
  the state 1, and \<^verbatim>\<open>setCutoff\<close> leaves it there.
\<close>

theorem setCutoff_keeps_state:
  "m_state (setCutoff 500 (snd (processOneSample (Finite 1) FirstOrderFilter_default))) \<noteq> Finite 0"
proof -
  have "doubleValue (Finite 1)"
    by (simp add: doubleValue_def isDouble_1)
  then have "processOneSample (Finite 1) FirstOrderFilter_default =
      (Finite 1, FirstOrderFilter_default\<lparr>m_state := Finite 1\<rparr>)"
    by (rule none_sample [OF default_fields])
  then show ?thesis
    by (simp add: setCutoff_def)
qed

subsection \<open>The design none\<close>

text \<open>
  Claim C10 as it is stated fails. A default filter that has processed the sample
  \<open>+\<infinity>\<close> holds the state \<open>+\<infinity>\<close>; for the next sample, 1, the product \<open>a1 * state\<close> is
  \<open>0 * \<infinity>\<close>, which is NaN, and so is the output.
\<close>

theorem none_design_loses_sample_after_infinity:
  "fst (processOneSample (Finite 1) (snd (processOneSample PInf FirstOrderFilter_default))) = NaN"
proof -
  have "doubleValue PInf"
    by (simp add: doubleValue_def)
  then have "processOneSample PInf FirstOrderFilter_default =
      (PInf, FirstOrderFilter_default\<lparr>m_state := PInf\<rparr>)"
    by (rule none_sample [OF default_fields])
  moreover have "processOneSample (Finite 1) (FirstOrderFilter_default\<lparr>m_state := PInf\<rparr>) =
      (NaN, FirstOrderFilter_default\<lparr>m_state := PInf, m_state := NaN\<rparr>)"
    by (rule none_sample_lost) (simp_all add: default_fields)
  ultimately show ?thesis
    by simp
qed

text \<open>
  Claim C10, as the code has it. A filter whose design is none and whose coefficients
  are up to date has \<open>b0 = 1\<close> and \<open>a1 = b1 = 0\<close>. While its state is finite, both
  overloads of \<^verbatim>\<open>processOneSample\<close> return the sample they are given, whatever value of
  the format it is, and keep it as the state; \<^verbatim>\<open>processData\<close> on a vector of fewer than
  \<open>2\<^sup>3\<^sup>2\<close> elements, all of them finite but for the last, which may be any value of the
  format, ends, returns 0 and leaves every element as it was. With a state that is an
  infinity or NaN, \<^verbatim>\<open>processOneSample\<close> returns NaN for every sample and the state is NaN
  from then on. The default constructor and \<^verbatim>\<open>setDesignroutine\<close> with none make such
  filters, with any state put in place of theirs.
\<close>

theorem none_design_is_identity_on_finite_state:
  "(m_design f = none \<and> coeffsCurrent f \<longrightarrow>
      m_b0 f = 1 \<and> m_a1 f = 0 \<and> m_b1 f = 0 \<and>
      (m_state f = Finite s \<and> doubleValue x \<longrightarrow>
         processOneSample x f = (x, f\<lparr>m_state := x\<rparr>)) \<and>
      (m_state f = Finite s \<and> floatValue x \<longrightarrow>
         processOneSample_float x f = (x, f\<lparr>m_state := x\<rparr>)) \<and>
      (m_state f = Finite s \<and> list_all doubleValue xs \<and> list_all finiteDouble (butlast xs) \<and>
       length xs < 2 ^ 32 \<longrightarrow>
         processData xs f =
           Some (0, xs, f\<lparr>m_state := (if xs = [] then Finite s else last xs)\<rparr>)) \<and>
      (m_state f = PInf \<or> m_state f = NInf \<or> m_state f = NaN \<longrightarrow>
         processOneSample x f = (NaN, f\<lparr>m_state := NaN\<rparr>) \<and>
         processOneSample_float x f = (NaN, f\<lparr>m_state := NaN\<rparr>))) \<and>
   m_design (FirstOrderFilter_default\<lparr>m_state := st\<rparr>) = none \<and>
   coeffsCurrent (FirstOrderFilter_default\<lparr>m_state := st\<rparr>) \<and>
   m_design (setDesignroutine none g) = none \<and>
   coeffsCurrent (setDesignroutine none g) \<and>
   m_state (setDesignroutine none g) = m_state g"
proof -
  have "m_b0 f = 1 \<and> m_a1 f = 0 \<and> m_b1 f = 0 \<and>
      (m_state f = Finite s \<and> doubleValue x \<longrightarrow>
         processOneSample x f = (x, f\<lparr>m_state := x\<rparr>)) \<and>
      (m_state f = Finite s \<and> floatValue x \<longrightarrow>
         processOneSample_float x f = (x, f\<lparr>m_state := x\<rparr>)) \<and>
      (m_state f = Finite s \<and> list_all doubleValue xs \<and> list_all finiteDouble (butlast xs) \<and>
       length xs < 2 ^ 32 \<longrightarrow>
         processData xs f =
           Some (0, xs, f\<lparr>m_state := (if xs = [] then Finite s else last xs)\<rparr>)) \<and>
      (m_state f = PInf \<or> m_state f = NInf \<or> m_state f = NaN \<longrightarrow>
         processOneSample x f = (NaN, f\<lparr>m_state := NaN\<rparr>) \<and>
         processOneSample_float x f = (NaN, f\<lparr>m_state := NaN\<rparr>))"
    if d: "m_design f = none" and c: "coeffsCurrent f"
  proof -
    note k = none_coeffs [OF d c]
    have "processOneSample x f = (x, f\<lparr>m_state := x\<rparr>)"
      if "m_state f = Finite s" and "doubleValue x"
      using k that by (rule none_sample)
    moreover have "processOneSample_float x f = (x, f\<lparr>m_state := x\<rparr>)"
      if "m_state f = Finite s" and "floatValue x"
      using k that by (rule none_sample_float)
    moreover have "processData xs f =
        Some (0, xs, f\<lparr>m_state := (if xs = [] then Finite s else last xs)\<rparr>)"
      if "m_state f = Finite s" and "list_all doubleValue xs"
        and "list_all finiteDouble (butlast xs)" and "length xs < 2 ^ 32"
      using k that by (rule none_data)
    moreover have "processOneSample x f = (NaN, f\<lparr>m_state := NaN\<rparr>) \<and>
        processOneSample_float x f = (NaN, f\<lparr>m_state := NaN\<rparr>)"
      if "m_state f = PInf \<or> m_state f = NInf \<or> m_state f = NaN"
      using none_sample_lost [OF k(3) that] by simp
    ultimately show ?thesis
      using k by blast
  qed
  moreover have "coeffsCurrent (FirstOrderFilter_default\<lparr>m_state := st\<rparr>)"
    by (rule coeffsCurrent_state) (rule coeffsCurrent_default)
  moreover have "m_design (FirstOrderFilter_default\<lparr>m_state := st\<rparr>) = none"
    by (simp add: default_design)
  moreover have "m_design (setDesignroutine none g) = none \<and>
      coeffsCurrent (setDesignroutine none g) \<and> m_state (setDesignroutine none g) = m_state g"
    by (simp add: setDesignroutine_def coeffsCurrent_computeCoeffs)
  ultimately show ?thesis
    by blast
qed

theorem none_design_is_identity_on_finite_state_witness:
  "m_design FirstOrderFilter_default = none \<and> coeffsCurrent FirstOrderFilter_default \<and>
   m_state FirstOrderFilter_default = Finite 0 \<and>
   doubleValue (Finite 3) \<and> floatValue (Finite 3) \<and>
   list_all doubleValue [Finite 1, PInf] \<and> list_all finiteDouble (butlast [Finite 1, PInf]) \<and>
   fst (processOneSample (Finite 3) FirstOrderFilter_default) = Finite 3 \<and>
   fst (processOneSample_float (Finite 3) FirstOrderFilter_default) = Finite 3 \<and>
   processData [Finite 1, PInf] FirstOrderFilter_default =
     Some (0, [Finite 1, PInf], FirstOrderFilter_default\<lparr>m_state := PInf\<rparr>) \<and>
   m_state (FirstOrderFilter_default\<lparr>m_state := NInf\<rparr>) = NInf \<and>
   fst (processOneSample (Finite 3) (FirstOrderFilter_default\<lparr>m_state := NInf\<rparr>)) = NaN"
proof -
  have d: "m_design FirstOrderFilter_default = none"
    by (rule default_design)
  have c: "coeffsCurrent FirstOrderFilter_default"
    by (rule coeffsCurrent_default)
  have s: "m_state FirstOrderFilter_default = Finite 0"
    by (rule default_fields)
  have v: "doubleValue (Finite 3)" "floatValue (Finite 3)"
    by (simp_all add: doubleValue_def floatValue_def isDouble_3 isFloat_3)
  have l: "list_all doubleValue [Finite 1, PInf]"
    "list_all finiteDouble (butlast [Finite 1, PInf])"
    by (simp_all add: doubleValue_def finiteDouble_def isDouble_1)
  have n: "length [Finite 1, PInf] < 2 ^ 32"
    by simp
  from none_design_is_identity_on_finite_state
    [of FirstOrderFilter_default 0 "Finite 3" "[Finite 1, PInf]"] d c s v l n
  have "processOneSample (Finite 3) FirstOrderFilter_default =
      (Finite 3, FirstOrderFilter_default\<lparr>m_state := Finite 3\<rparr>)"
    and "processOneSample_float (Finite 3) FirstOrderFilter_default =
      (Finite 3, FirstOrderFilter_default\<lparr>m_state := Finite 3\<rparr>)"
    and "processData [Finite 1, PInf] FirstOrderFilter_default =
      Some (0, [Finite 1, PInf], FirstOrderFilter_default\<lparr>m_state := PInf\<rparr>)"
    by simp_all
  moreover from none_design_is_identity_on_finite_state
    [of "FirstOrderFilter_default\<lparr>m_state := NInf\<rparr>" 0 "Finite 3" "[]" NInf]
  have "processOneSample (Finite 3) (FirstOrderFilter_default\<lparr>m_state := NInf\<rparr>) =
      (NaN, FirstOrderFilter_default\<lparr>m_state := NInf, m_state := NaN\<rparr>)"
    by simp
  ultimately show ?thesis
    using d c s v l by simp
qed
section \<open>Facts about BasicDelayEffect: the setters\<close>

lemma new_fields:
  "m_maxdelay (BasicDelayEffect_new fs) = 1000"
  "m_nrOfChns (BasicDelayEffect_new fs) = 2"
  "m_switchState (BasicDelayEffect_new fs) = [normal, normal]"
  "m_delays (BasicDelayEffect_new fs) = [0, 0]"
  "m_feedback (BasicDelayEffect_new fs) = [0, 0]"
  "m_switchTime (BasicDelayEffect_new fs) = 100"
  "m_switchalgorithm (BasicDelayEffect_new fs) = tape"
  by (simp_all add: BasicDelayEffect_new_def changeBufferSize_def resizeVec_def newBuffer_def
      Let_def numeral_2_eq_2)

lemma new_fields2:
  "m_switchCounter (BasicDelayEffect_new fs) = [0, 0]"
  "m_newdelays (BasicDelayEffect_new fs) = [0, 0]"
  "m_futuredelays (BasicDelayEffect_new fs) = [0, 0]"
  "m_fadeInc (BasicDelayEffect_new fs) = [0, 0]"
  "m_oldOut (BasicDelayEffect_new fs) = [0, 0]"
  "m_writePos (BasicDelayEffect_new fs) = 0"
  "m_buffer (BasicDelayEffect_new fs) = newBuffer 2 1000"
  "m_fs (BasicDelayEffect_new fs) = Finite fs"
  by (simp_all add: BasicDelayEffect_new_def changeBufferSize_def resizeVec_def newBuffer_def
      Let_def numeral_2_eq_2)

lemma new_consistent: "consistent (BasicDelayEffect_new fs)"
  by (simp add: consistent_def BasicDelayEffect_new_def changeBufferSize_def resizeVec_def
      newBuffer_def Let_def)

subsection \<open>setSamplerate\<close>

text \<open>
  Claim C9. \<^verbatim>\<open>setSamplerate\<close> of the delay line stores the sample rate and nothing else:
  the ring with its shape, the write position, the capacity, the channel count, the
  algorithm, the switch time and every per-channel vector are what they were.
\<close>

theorem setSamplerate_changes_only_sample_rate:
  "m_fs (setSamplerate fs s) = fs \<and>
   m_maxdelay (setSamplerate fs s) = m_maxdelay s \<and>
   m_nrOfChns (setSamplerate fs s) = m_nrOfChns s \<and>
   m_buffer (setSamplerate fs s) = m_buffer s \<and>
   m_writePos (setSamplerate fs s) = m_writePos s \<and>
   m_delays (setSamplerate fs s) = m_delays s \<and>
   m_switchalgorithm (setSamplerate fs s) = m_switchalgorithm s \<and>
   m_switchTime (setSamplerate fs s) = m_switchTime s \<and>
   m_switchCounter (setSamplerate fs s) = m_switchCounter s \<and>
   m_switchState (setSamplerate fs s) = m_switchState s \<and>
   m_newdelays (setSamplerate fs s) = m_newdelays s \<and>
   m_futuredelays (setSamplerate fs s) = m_futuredelays s \<and>
   m_fadeInc (setSamplerate fs s) = m_fadeInc s \<and>
   m_oldOut (setSamplerate fs s) = m_oldOut s \<and>
   m_feedback (setSamplerate fs s) = m_feedback s"
  by (simp add: setSamplerate_def)

subsection \<open>The setters that take a channel index\<close>

lemma setDelay_beyond_channels: "m_nrOfChns s \<le> chn \<Longrightarrow> setDelay delay chn s = s"
  by (simp add: setDelay_def)

lemma setDelay_s_beyond_channels:
  assumes "m_nrOfChns s \<le> chn"
  shows "setDelay_s delay_s chn s = Inr s \<or> setDelay_s delay_s chn s = Inl CastOutOfRange"
  by (cases "to_size_t (fmul roundFloat delay_s (m_fs s))")
    (simp_all add: setDelay_s_def setDelay_beyond_channels [OF assms])

text \<open>
  Claim C5 as it is stated fails: a delay line as constructed has 2 channels, and
  \<^verbatim>\<open>setFeedback\<close> with the channel index 2 indexes \<^verbatim>\<open>m_feedback\<close> past its end.
\<close>

theorem setFeedback_past_the_end:
  "m_nrOfChns (BasicDelayEffect_new 44100) = 2 \<and>
   setFeedback (1 / 2) 2 (BasicDelayEffect_new 44100) = Inl OutOfBounds"
  by (simp add: setFeedback_def new_fields)

text \<open>
  Claim C5, as the code has it, on a delay line that satisfies the class invariant.
  \<^verbatim>\<open>setFeedback\<close> checks nothing: with a channel index below the channel count it stores
  the gain for that channel and the delay line is otherwise what it was, in every other
  field and every other gain; with a channel index at or above the channel count it is
  an access past the end of the vector, neither rejected nor clamped. The other setters
  that take a channel index reject such an index: \<^verbatim>\<open>setDelay\<close> returns the delay line as
  it was, and so does \<^verbatim>\<open>setDelay_s\<close> when its conversion to samples is defined.
\<close>

theorem setFeedback_unchecked_setDelay_checked:
  "consistent s \<Longrightarrow>
   (chn < m_nrOfChns s \<longrightarrow>
      setFeedback feedback chn s = Inr (s\<lparr>m_feedback := (m_feedback s)[chn := feedback]\<rparr>) \<and>
      consistent (s\<lparr>m_feedback := (m_feedback s)[chn := feedback]\<rparr>) \<and>
      (m_feedback s)[chn := feedback] ! chn = feedback \<and>
      (\<forall>c. c \<noteq> chn \<longrightarrow> (m_feedback s)[chn := feedback] ! c = m_feedback s ! c)) \<and>
   (m_nrOfChns s \<le> chn \<longrightarrow>
      setFeedback feedback chn s = Inl OutOfBounds \<and>
      setDelay delay chn s = s \<and>
      (setDelay_s delay_s chn s = Inr s \<or> setDelay_s delay_s chn s = Inl CastOutOfRange))"
  using setDelay_s_beyond_channels [of s chn delay_s]
  by (auto simp add: setFeedback_def consistent_def setDelay_beyond_channels)

theorem setFeedback_unchecked_setDelay_checked_witness:
  "consistent (BasicDelayEffect_new 44100) \<and>
   1 < m_nrOfChns (BasicDelayEffect_new 44100) \<and>
   m_nrOfChns (BasicDelayEffect_new 44100) \<le> 2 \<and>
   setFeedback (1 / 2) 1 (BasicDelayEffect_new 44100) =
     Inr ((BasicDelayEffect_new 44100)\<lparr>m_feedback := [0, 1 / 2]\<rparr>) \<and>
   setFeedback (1 / 2) 2 (BasicDelayEffect_new 44100) = Inl OutOfBounds \<and>
   setDelay 5 2 (BasicDelayEffect_new 44100) = BasicDelayEffect_new 44100 \<and>
   setDelay_s (Finite 0) 2 (BasicDelayEffect_new 44100) = Inr (BasicDelayEffect_new 44100)"
proof -
  have c: "consistent (BasicDelayEffect_new 44100)"
    by (rule new_consistent)
  have n: "m_nrOfChns (BasicDelayEffect_new 44100) = 2"
    by (rule new_fields)
  from setFeedback_unchecked_setDelay_checked [OF c, of 1 "1 / 2" 5 "Finite 0"] n
  have "setFeedback (1 / 2) 1 (BasicDelayEffect_new 44100) =
     Inr ((BasicDelayEffect_new 44100)\<lparr>m_feedback := [0, 1 / 2]\<rparr>)"
    by (simp add: new_fields)
  moreover from setFeedback_unchecked_setDelay_checked [OF c, of 2 "1 / 2" 5 "Finite 0"] n
  have "setFeedback (1 / 2) 2 (BasicDelayEffect_new 44100) = Inl OutOfBounds"
    and "setDelay 5 2 (BasicDelayEffect_new 44100) = BasicDelayEffect_new 44100"
    and "setDelay_s (Finite 0) 2 (BasicDelayEffect_new 44100) = Inr (BasicDelayEffect_new 44100) \<or>
      setDelay_s (Finite 0) 2 (BasicDelayEffect_new 44100) = Inl CastOutOfRange"
    by simp_all
  moreover have "setDelay_s (Finite 0) 2 (BasicDelayEffect_new 44100) \<noteq> Inl CastOutOfRange"
    by (simp add: setDelay_s_def to_size_t_def new_fields2)
  ultimately show ?thesis
    using c n by simp
qed

subsection \<open>setDelay\<close>

text \<open>
  Claim C3. A request for a delay of at least the capacity is rejected: the delay line
  after the call is the delay line before it, in every field and for every channel
  index.
\<close>

theorem setDelay_rejects_delay_beyond_capacity:
  "m_maxdelay s \<le> delay \<Longrightarrow> setDelay delay chn s = s"
  by (simp add: setDelay_def)

theorem setDelay_rejects_delay_beyond_capacity_witness:
  "m_maxdelay (BasicDelayEffect_new 44100) \<le> 1000 \<and>
   setDelay 1000 0 (BasicDelayEffect_new 44100) = BasicDelayEffect_new 44100"
proof -
  have h: "m_maxdelay (BasicDelayEffect_new 44100) \<le> 1000"
    by (simp add: new_fields)
  from setDelay_rejects_delay_beyond_capacity [OF h, of 0] h show ?thesis
    by simp
qed

text \<open>
  Claim C7. For a channel in the normal state, a request for the delay that is already
  active changes nothing: the delay line after the call is the delay line before it, so
  the state is still normal and the pending delay, the counter and the increment are
  untouched.
\<close>

theorem setDelay_same_delay_is_noop:
  "m_switchState s ! chn = normal \<Longrightarrow> real delay = m_delays s ! chn \<Longrightarrow>
   setDelay delay chn s = s"
  by (simp add: setDelay_def)

theorem setDelay_same_delay_is_noop_witness:
  "m_switchState (BasicDelayEffect_new 44100) ! 1 = normal \<and>
   real 0 = m_delays (BasicDelayEffect_new 44100) ! 1 \<and>
   setDelay 0 1 (BasicDelayEffect_new 44100) = BasicDelayEffect_new 44100"
proof -
  have h1: "m_switchState (BasicDelayEffect_new 44100) ! 1 = normal"
    and h2: "real 0 = m_delays (BasicDelayEffect_new 44100) ! 1"
    by (simp_all add: new_fields)
  from setDelay_same_delay_is_noop [OF h1 h2] h1 h2 show ?thesis
    by simp
qed

section \<open>Facts about BasicDelayEffect: block processing\<close>

lemma sameConfig_refl [simp]: "sameConfig s s"
  by (simp add: sameConfig_def)

lemma sameConfig_trans: "sameConfig s s' \<Longrightarrow> sameConfig s' s'' \<Longrightarrow> sameConfig s s''"
  by (simp add: sameConfig_def)

lemma sameConfig_eff: "sameConfig s s' \<Longrightarrow> effectiveSwitchTime s' = effectiveSwitchTime s"
  by (simp add: sameConfig_def effectiveSwitchTime_def split: switchAlgorithm.splits)

lemma sameConfig_inc: "sameConfig s s' \<Longrightarrow> transitionInc s' = transitionInc s"
  by (intro ext) (simp add: sameConfig_def effectiveSwitchTime_def transitionInc_def
      split: switchAlgorithm.splits)

lemma sameConfig_chanStart: "sameConfig s s' \<Longrightarrow> chanStart s' = chanStart s"
  by (intro ext) (simp add: chanStart_def sameConfig_eff sameConfig_inc)

lemma sameConfig_chanStep: "sameConfig s s' \<Longrightarrow> chanStep s' = chanStep s"
  by (intro ext)
    (simp add: chanStep_def sameConfig_eff sameConfig_inc sameConfig_chanStart,
      simp add: sameConfig_def)

lemma delays_update_eff [simp]:
  "effectiveSwitchTime (s\<lparr>m_delays := ds\<rparr>) = effectiveSwitchTime s"
  "transitionInc (s\<lparr>m_delays := ds\<rparr>) = transitionInc s"
  by (simp_all add: effectiveSwitchTime_def transitionInc_def fun_eq_iff
      split: switchAlgorithm.splits)

lemma startTransition_config: "sameConfig s (startTransition chn new s)"
  by (simp add: startTransition_def sameConfig_def Let_def)

lemma startTransition_consistent: "consistent s \<Longrightarrow> consistent (startTransition chn new s)"
  by (simp add: startTransition_def consistent_def Let_def)

lemma startTransition_audio:
  "m_buffer (startTransition chn new s) = m_buffer s"
  "m_writePos (startTransition chn new s) = m_writePos s"
  "m_oldOut (startTransition chn new s) = m_oldOut s"
  by (simp_all add: startTransition_def Let_def)

lemma startTransition_self:
  "consistent s \<Longrightarrow> chn < m_nrOfChns s \<Longrightarrow>
   chanOf (startTransition chn new s) chn = chanStart s new (chanOf s chn)"
  by (simp add: startTransition_def chanStart_def chanOf_def consistent_def Let_def)

lemma startTransition_other:
  "c \<noteq> chn \<Longrightarrow> chanOf (startTransition chn new s) c = chanOf s c"
  by (simp add: startTransition_def chanOf_def Let_def)

lemma advanceChannel_config: "sameConfig s (advanceChannel chn s)"
  by (simp add: advanceChannel_def startTransition_def sameConfig_def Let_def)

lemma advanceChannel_consistent: "consistent s \<Longrightarrow> consistent (advanceChannel chn s)"
  by (simp add: advanceChannel_def startTransition_def consistent_def Let_def)

lemma advanceChannel_audio:
  "m_buffer (advanceChannel chn s) = m_buffer s"
  "m_writePos (advanceChannel chn s) = m_writePos s"
  "m_oldOut (advanceChannel chn s) = m_oldOut s"
  by (simp_all add: advanceChannel_def startTransition_def Let_def)

lemma advanceChannel_self:
  "consistent s \<Longrightarrow> chn < m_nrOfChns s \<Longrightarrow>
   chanOf (advanceChannel chn s) chn = chanStep s (chanOf s chn)"
  by (simp add: advanceChannel_def startTransition_def chanStep_def chanStart_def chanOf_def
      consistent_def Let_def)

lemma advanceChannel_other:
  "c \<noteq> chn \<Longrightarrow> chanOf (advanceChannel chn s) c = chanOf s c"
  by (simp add: advanceChannel_def startTransition_def chanOf_def Let_def)

lemma advanceAll_config: "sameConfig s (fold advanceChannel [0..<n] s)"
proof (induction n)
  case 0
  show ?case by simp
next
  case (Suc n)
  show ?case
    using sameConfig_trans [OF Suc advanceChannel_config] by simp
qed

lemma advanceAll_consistent: "consistent s \<Longrightarrow> consistent (fold advanceChannel [0..<n] s)"
  by (induction n) (simp_all add: advanceChannel_consistent)

lemma advanceAll_audio:
  "m_buffer (fold advanceChannel [0..<n] s) = m_buffer s"
  "m_writePos (fold advanceChannel [0..<n] s) = m_writePos s"
  "m_oldOut (fold advanceChannel [0..<n] s) = m_oldOut s"
  by (induction n) (simp_all add: advanceChannel_audio)

lemma advanceAll_chan:
  "consistent s \<Longrightarrow> n \<le> m_nrOfChns s \<Longrightarrow>
   chanOf (fold advanceChannel [0..<n] s) c = (if c < n then chanStep s (chanOf s c) else chanOf s c)"
proof (induction n)
  case 0
  show ?case by simp
next
  case (Suc n)
  let ?t = "fold advanceChannel [0..<n] s"
  have cfg: "sameConfig s ?t" by (rule advanceAll_config)
  have con: "consistent ?t" using Suc.prems by (simp add: advanceAll_consistent)
  have n: "n < m_nrOfChns ?t" using Suc.prems cfg by (simp add: sameConfig_def)
  have ih: "chanOf ?t c = (if c < n then chanStep s (chanOf s c) else chanOf s c)"
    using Suc by simp
  show ?case
  proof (cases "c = n")
    case True
    then show ?thesis
      using advanceChannel_self [OF con n] ih sameConfig_chanStep [OF cfg] by simp
  next
    case False
    then show ?thesis
      using advanceChannel_other [of c n ?t] ih by auto
  qed
qed

lemma sameMachine_refl [simp]: "sameMachine s s"
  by (simp add: sameMachine_def)

lemma sameMachine_trans: "sameMachine s s' \<Longrightarrow> sameMachine s' s'' \<Longrightarrow> sameMachine s s''"
  by (simp add: sameMachine_def)

lemma sameMachine_chanOf: "sameMachine s s' \<Longrightarrow> chanOf s' c = chanOf s c"
  by (simp add: sameMachine_def chanOf_def)

lemma processChannel_config: "sameConfig (snd ds) (snd (processChannel frame chn ds))"
  by (simp add: processChannel_def writeRing_def sameConfig_def Let_def)

lemma processChannel_machine: "sameMachine (snd ds) (snd (processChannel frame chn ds))"
  by (simp add: processChannel_def writeRing_def sameMachine_def Let_def)

lemma processChannel_writePos: "m_writePos (snd (processChannel frame chn ds)) = m_writePos (snd ds)"
  by (simp add: processChannel_def writeRing_def Let_def)

lemma processChannel_consistent:
  "consistent (snd ds) \<Longrightarrow> consistent (snd (processChannel frame chn ds))"
  by (simp add: processChannel_def writeRing_def setSample_def consistent_def Let_def)

lemma processChannel_shape:
  "numChannels (fst (processChannel frame chn ds)) = numChannels (fst ds)"
  "numSamples (fst (processChannel frame chn ds)) = numSamples (fst ds)"
  by (simp_all add: processChannel_def setSample_def Let_def)

lemma channels_config: "sameConfig (snd ds) (snd (fold (processChannel frame) cs ds))"
proof (induction cs arbitrary: ds)
  case Nil
  show ?case by simp
next
  case (Cons c cs)
  show ?case
    using sameConfig_trans [OF processChannel_config Cons [of "processChannel frame c ds"]]
    by simp
qed

lemma channels_machine: "sameMachine (snd ds) (snd (fold (processChannel frame) cs ds))"
proof (induction cs arbitrary: ds)
  case Nil
  show ?case by simp
next
  case (Cons c cs)
  show ?case
    using sameMachine_trans [OF processChannel_machine Cons [of "processChannel frame c ds"]]
    by simp
qed

lemma channels_writePos:
  "m_writePos (snd (fold (processChannel frame) cs ds)) = m_writePos (snd ds)"
  by (induction cs arbitrary: ds) (simp_all add: processChannel_writePos)

lemma channels_consistent:
  "consistent (snd ds) \<Longrightarrow> consistent (snd (fold (processChannel frame) cs ds))"
  by (induction cs arbitrary: ds) (simp_all add: processChannel_consistent)

lemma channels_shape:
  "numChannels (fst (fold (processChannel frame) cs ds)) = numChannels (fst ds)"
  "numSamples (fst (fold (processChannel frame) cs ds)) = numSamples (fst ds)"
  by (induction cs arbitrary: ds) (simp_all add: processChannel_shape)

lemma consistent_writePos_update:
  "consistent s \<Longrightarrow> 0 < m_maxdelay s \<Longrightarrow>
   consistent (s\<lparr>m_writePos := (m_writePos s + 1) mod m_maxdelay s\<rparr>)"
  by (simp add: consistent_def)

lemma processFrame_config: "sameConfig (snd ds) (snd (processFrame frame ds))"
proof -
  let ?ds1 = "fold (processChannel frame) [0..<numChannels (fst ds)] ds"
  let ?s2 = "(snd ?ds1)\<lparr>m_writePos := (m_writePos (snd ?ds1) + 1) mod m_maxdelay (snd ?ds1)\<rparr>"
  have "sameConfig (snd ds) (snd ?ds1)" by (rule channels_config)
  then have "sameConfig (snd ds) ?s2" by (simp add: sameConfig_def)
  then have "sameConfig (snd ds) (fold advanceChannel [0..<m_nrOfChns ?s2] ?s2)"
    by (rule sameConfig_trans) (rule advanceAll_config)
  then show ?thesis by (simp add: processFrame_def Let_def)
qed

lemma processFrame_consistent:
  assumes "consistent (snd ds)" and "0 < m_maxdelay (snd ds)"
  shows "consistent (snd (processFrame frame ds))"
proof -
  let ?ds1 = "fold (processChannel frame) [0..<numChannels (fst ds)] ds"
  have "sameConfig (snd ds) (snd ?ds1)" by (rule channels_config)
  then have m: "0 < m_maxdelay (snd ?ds1)" using assms(2) by (simp add: sameConfig_def)
  have c: "consistent (snd ?ds1)" using assms(1) by (rule channels_consistent)
  show ?thesis
    unfolding processFrame_def Let_def snd_conv
    by (rule advanceAll_consistent) (rule consistent_writePos_update [OF c m])
qed

lemma processFrame_shape:
  "numChannels (fst (processFrame frame ds)) = numChannels (fst ds)"
  "numSamples (fst (processFrame frame ds)) = numSamples (fst ds)"
  by (simp_all add: processFrame_def Let_def channels_shape)

lemma processFrame_chan:
  assumes "consistent (snd ds)" and "0 < m_maxdelay (snd ds)" and "c < m_nrOfChns (snd ds)"
  shows "chanOf (snd (processFrame frame ds)) c = chanStep (snd ds) (chanOf (snd ds) c)"
proof -
  let ?ds1 = "fold (processChannel frame) [0..<numChannels (fst ds)] ds"
  let ?s2 = "(snd ?ds1)\<lparr>m_writePos := (m_writePos (snd ?ds1) + 1) mod m_maxdelay (snd ?ds1)\<rparr>"
  have cfg1: "sameConfig (snd ds) (snd ?ds1)" by (rule channels_config)
  then have cfg: "sameConfig (snd ds) ?s2" by (simp add: sameConfig_def)
  have "sameMachine (snd ds) (snd ?ds1)" by (rule channels_machine)
  then have "sameMachine (snd ds) ?s2" by (simp add: sameMachine_def)
  then have ch: "chanOf ?s2 c = chanOf (snd ds) c" by (rule sameMachine_chanOf)
  have "0 < m_maxdelay (snd ?ds1)" using assms(2) cfg1 by (simp add: sameConfig_def)
  then have con: "consistent ?s2"
    by (rule consistent_writePos_update [OF channels_consistent [OF assms(1)]])
  have c: "c < m_nrOfChns ?s2" using assms(3) cfg by (simp add: sameConfig_def)
  have "chanOf (fold advanceChannel [0..<m_nrOfChns ?s2] ?s2) c = chanStep ?s2 (chanOf ?s2 c)"
    using advanceAll_chan [OF con order_refl, of c] c by simp
  then show ?thesis
    using ch sameConfig_chanStep [OF cfg] by (simp add: processFrame_def Let_def)
qed

lemma frames_config: "sameConfig (snd ds) (snd (fold processFrame [0..<n] ds))"
proof (induction n)
  case 0
  show ?case by simp
next
  case (Suc n)
  show ?case
    using sameConfig_trans [OF Suc processFrame_config] by simp
qed

lemma frames_consistent:
  assumes "consistent (snd ds)" and "0 < m_maxdelay (snd ds)"
  shows "consistent (snd (fold processFrame [0..<n] ds))"
proof (induction n)
  case 0
  show ?case using assms(1) by simp
next
  case (Suc n)
  let ?t = "fold processFrame [0..<n] ds"
  have "sameConfig (snd ds) (snd ?t)" by (rule frames_config)
  then have "0 < m_maxdelay (snd ?t)" using assms(2) by (simp add: sameConfig_def)
  with Suc show ?case by (simp add: processFrame_consistent)
qed

lemma frames_shape:
  "numChannels (fst (fold processFrame [0..<n] ds)) = numChannels (fst ds)"
  "numSamples (fst (fold processFrame [0..<n] ds)) = numSamples (fst ds)"
  by (induction n) (simp_all add: processFrame_shape)

lemma frames_chan:
  assumes "consistent (snd ds)" and "0 < m_maxdelay (snd ds)" and "c < m_nrOfChns (snd ds)"
  shows "chanOf (snd (fold processFrame [0..<n] ds)) c = (chanStep (snd ds) ^^ n) (chanOf (snd ds) c)"
proof (induction n)
  case 0
  show ?case by simp
next
  case (Suc n)
  let ?t = "fold processFrame [0..<n] ds"
  have cfg: "sameConfig (snd ds) (snd ?t)" by (rule frames_config)
  have con: "consistent (snd ?t)" using assms(1,2) by (rule frames_consistent)
  have m: "0 < m_maxdelay (snd ?t)" using assms(2) cfg by (simp add: sameConfig_def)
  have c: "c < m_nrOfChns (snd ?t)" using assms(3) cfg by (simp add: sameConfig_def)
  show ?case
    using processFrame_chan [OF con m c] Suc sameConfig_chanStep [OF cfg] by simp
qed

subsection \<open>The state machine of one channel\<close>

lemma chanStep_normal: "c_state ch = normal \<Longrightarrow> (chanStep s ^^ n) ch = ch"
  by (induction n) (simp_all add: chanStep_def)

lemma chanStep_in_flight:
  "c_state ch \<noteq> normal \<Longrightarrow> c_counter ch + j < effectiveSwitchTime s \<Longrightarrow>
   (chanStep s ^^ j) ch =
     ch\<lparr>c_counter := c_counter ch + j,
        c_delay := (if m_switchalgorithm s = tape then c_delay ch + real j * c_inc ch
                    else c_delay ch)\<rparr>"
proof (induction j)
  case 0
  show ?case by simp
next
  case (Suc j)
  then show ?case
    by (simp add: chanStep_def algebra_simps)
qed

lemma chanStep_completes:
  assumes "c_state ch \<noteq> normal" and n: "n = max 1 (effectiveSwitchTime s - c_counter ch)"
  shows "(chanStep s ^^ n) ch =
     (if c_state ch = futureValueSet
      then chanStart s (c_future ch) (ch\<lparr>c_delay := real (c_new ch)\<rparr>)
      else ch\<lparr>c_delay := real (c_new ch), c_counter := c_counter ch + n,
              c_state := normal\<rparr>)"
proof -
  have "0 < n" using n by simp
  then obtain j where j: "n = Suc j"
    by (cases n) simp_all
  have reach: "effectiveSwitchTime s \<le> c_counter ch + j + 1"
    using n j by simp
  have before: "(chanStep s ^^ j) ch =
     ch\<lparr>c_counter := c_counter ch + j,
        c_delay := (if m_switchalgorithm s = tape then c_delay ch + real j * c_inc ch
                    else c_delay ch)\<rparr>"
  proof (cases "j = 0")
    case True
    then show ?thesis by simp
  next
    case False
    then have "c_counter ch + j < effectiveSwitchTime s"
      using n j by (simp add: max_def split: if_splits)
    then show ?thesis
      by (rule chanStep_in_flight [OF assms(1)])
  qed
  have "(chanStep s ^^ n) ch = chanStep s ((chanStep s ^^ j) ch)"
    by (simp add: j)
  then show ?thesis
    using assms(1) reach by (simp add: before chanStep_def chanStart_def j)
qed

lemma chanStep_settles:
  assumes "c_state ch = changeTime"
    and "max 1 (effectiveSwitchTime s - c_counter ch) \<le> n"
  shows "c_state ((chanStep s ^^ n) ch) = normal"
    and "c_delay ((chanStep s ^^ n) ch) = real (c_new ch)"
proof -
  define n1 where "n1 = max 1 (effectiveSwitchTime s - c_counter ch)"
  define ch1 where "ch1 = (chanStep s ^^ n1) ch"
  have ch1: "ch1 = ch\<lparr>c_delay := real (c_new ch), c_counter := c_counter ch + n1, c_state := normal\<rparr>"
    unfolding ch1_def using chanStep_completes [OF _ n1_def] assms(1) by simp
  have "n = (n - n1) + n1" using assms(2) by (simp add: n1_def)
  then have "(chanStep s ^^ n) ch = (chanStep s ^^ (n - n1)) ch1"
    unfolding ch1_def by (metis funpow_add o_apply)
  also have "\<dots> = ch1"
    by (rule chanStep_normal) (simp add: ch1)
  finally have "(chanStep s ^^ n) ch = ch1" .
  then show "c_state ((chanStep s ^^ n) ch) = normal"
    and "c_delay ((chanStep s ^^ n) ch) = real (c_new ch)"
    by (simp_all add: ch1)
qed

subsection \<open>processSamples and setDelay on one channel\<close>

lemma processSamples_fits:
  "shapeFits data s \<Longrightarrow>
   processSamples data s = (0, fold processFrame [0..<numSamples data] (data, s))"
  by (simp add: processSamples_def)

lemma processSamples_config: "sameConfig s (snd (snd (processSamples data s)))"
  using frames_config [of "(data, s)" "numSamples data"]
  by (simp add: processSamples_def)

lemma processSamples_consistent:
  "consistent s \<Longrightarrow> consistent (snd (snd (processSamples data s)))"
  using frames_consistent [of "(data, s)" "numSamples data"]
  by (simp add: processSamples_def shapeFits_def)

lemma processSamples_chan:
  assumes "consistent s" and "shapeFits data s" and "c < m_nrOfChns s"
  shows "chanOf (snd (snd (processSamples data s))) c = (chanStep s ^^ numSamples data) (chanOf s c)"
  using frames_chan [of "(data, s)" c "numSamples data"] assms
  by (simp add: processSamples_fits shapeFits_def)

lemma sameConfig_fits: "sameConfig s s' \<Longrightarrow> shapeFits data s' = shapeFits data s"
  by (simp add: sameConfig_def shapeFits_def)

lemma setDelay_config: "sameConfig s (setDelay delay chn s)"
  by (simp add: setDelay_def startTransition_def Let_def sameConfig_def
      split: switchState.splits)

lemma setDelay_consistent: "consistent s \<Longrightarrow> consistent (setDelay delay chn s)"
  by (auto simp add: setDelay_def startTransition_def Let_def consistent_def
      split: switchState.splits)

lemma setDelay_audio:
  "m_buffer (setDelay delay chn s) = m_buffer s"
  "m_writePos (setDelay delay chn s) = m_writePos s"
  "m_oldOut (setDelay delay chn s) = m_oldOut s"
  by (simp_all add: setDelay_def startTransition_def Let_def split: switchState.splits)

lemma setDelay_same: "real delay = m_delays s ! chn \<Longrightarrow> setDelay delay chn s = s"
  by (simp add: setDelay_def)

lemma setDelay_from_normal:
  assumes "consistent s" and "chn < m_nrOfChns s" and "delay < m_maxdelay s"
    and "m_switchState s ! chn = normal" and "real delay \<noteq> m_delays s ! chn"
  shows "chanOf (setDelay delay chn s) chn = chanStart s delay (chanOf s chn)"
  using assms by (simp add: setDelay_def startTransition_self)


lemma chanOf_fields:
  "m_delays s ! c = c_delay (chanOf s c)"
  "m_switchState s ! c = c_state (chanOf s c)"
  "m_switchCounter s ! c = c_counter (chanOf s c)"
  "m_newdelays s ! c = c_new (chanOf s c)"
  "m_futuredelays s ! c = c_future (chanOf s c)"
  "m_fadeInc s ! c = c_inc (chanOf s c)"
  by (simp_all add: chanOf_def)

lemma processSamples_frames:
  "shapeFits data s \<Longrightarrow> numSamples (fst (snd (processSamples data s))) = numSamples data"
  by (simp add: processSamples_fits frames_shape)



lemma blocks_chan:
  assumes "consistent s" and "\<forall>b\<in>set bs. shapeFits b s" and "c < m_nrOfChns s"
  shows "chanOf (snd (snd (processBlocks bs s))) c = (chanStep s ^^ streamLength bs) (chanOf s c)"
  using assms
proof (induction bs arbitrary: s)
  case Nil
  show ?case by (simp add: streamLength_def)
next
  case (Cons b bs)
  define s1 where "s1 = snd (snd (processSamples b s))"
  have fits: "shapeFits b s" using Cons.prems(2) by simp
  have cfg: "sameConfig s s1"
    unfolding s1_def by (rule processSamples_config)
  have "chanOf (snd (snd (processBlocks bs s1))) c = (chanStep s1 ^^ streamLength bs) (chanOf s1 c)"
  proof (rule Cons.IH)
    show "consistent s1"
      unfolding s1_def by (rule processSamples_consistent [OF Cons.prems(1)])
    show "\<forall>b\<in>set bs. shapeFits b s1"
      using Cons.prems(2) sameConfig_fits [OF cfg] by simp
    show "c < m_nrOfChns s1"
      using Cons.prems(3) cfg by (simp add: sameConfig_def)
  qed
  also have "chanOf s1 c = (chanStep s ^^ numSamples b) (chanOf s c)"
    unfolding s1_def by (rule processSamples_chan [OF Cons.prems(1) fits Cons.prems(3)])
  finally have "chanOf (snd (snd (processBlocks bs s1))) c =
      (chanStep s ^^ (streamLength bs + numSamples b)) (chanOf s c)"
    by (simp add: sameConfig_chanStep [OF cfg] funpow_add)
  moreover have "streamLength bs + numSamples b = streamLength (b # bs)"
    by (simp add: streamLength_def)
  ultimately show ?case
    by (simp add: Let_def s1_def)
qed

lemma sameConfig_runFits:
  "sameConfig s s' \<Longrightarrow> (\<forall>b\<in>set bs. shapeFits b s') = (\<forall>b\<in>set bs. shapeFits b s)"
  by (simp add: sameConfig_fits)

lemma switchTime_covers:
  "0 < m_switchTime s \<Longrightarrow> max 1 (effectiveSwitchTime s - 0) \<le> m_switchTime s"
  by (simp add: effectiveSwitchTime_def split: switchAlgorithm.splits)

lemma eff_positive: "0 < effectiveSwitchTime s \<Longrightarrow> 0 < m_switchTime s"
  by (simp add: effectiveSwitchTime_def split: switchAlgorithm.splits)

text \<open>A channel in the normal state stays as it is while blocks are processed.\<close>

lemma normal_stays:
  assumes con: "consistent s" and chn: "chn < m_nrOfChns s"
    and st: "m_switchState s ! chn = normal" and fits: "(\<forall>b\<in>set blocks. shapeFits b s)"
  shows "chanOf (snd (snd (processBlocks blocks s))) chn = chanOf s chn"
proof -
  have "c_state (chanOf s chn) = normal" using st by (simp add: chanOf_def)
  then have "(chanStep s ^^ streamLength blocks) (chanOf s chn) = chanOf s chn"
    by (rule chanStep_normal)
  then show ?thesis
    using blocks_chan [OF con fits chn] by simp
qed

text \<open>A transition that starts with the counter at 0 is over after the switch time.\<close>

lemma transition_done:
  assumes con: "consistent s" and chn: "chn < m_nrOfChns s" and S: "0 < m_switchTime s"
    and st: "m_switchState s ! chn = changeTime" and cnt: "m_switchCounter s ! chn = 0"
    and fits: "(\<forall>b\<in>set blocks. shapeFits b s)" and len: "streamLength blocks = m_switchTime s"
  shows "m_switchState (snd (snd (processBlocks blocks s))) ! chn = normal"
    and "m_delays (snd (snd (processBlocks blocks s))) ! chn = real (m_newdelays s ! chn)"
proof -
  have st': "c_state (chanOf s chn) = changeTime"
    using st by (simp add: chanOf_def)
  have "max 1 (effectiveSwitchTime s - c_counter (chanOf s chn)) \<le> streamLength blocks"
    using switchTime_covers [OF S] cnt len by (simp add: chanOf_def)
  note fin = chanStep_settles [OF st' this]
  have run: "chanOf (snd (snd (processBlocks blocks s))) chn =
      (chanStep s ^^ streamLength blocks) (chanOf s chn)"
    by (rule blocks_chan [OF con fits chn])
  show "m_switchState (snd (snd (processBlocks blocks s))) ! chn = normal"
    unfolding chanOf_fields run by (rule fin(1))
  show "m_delays (snd (snd (processBlocks blocks s))) ! chn = real (m_newdelays s ! chn)"
    unfolding chanOf_fields run by (rule fin(2))
qed

text \<open>
  A transition that has just been started, as \<open>chanStart\<close> leaves the channel, has
  reached its delay after the switch time.
\<close>

lemma started_done:
  assumes con: "consistent s" and chn: "chn < m_nrOfChns s"
    and ch: "chanOf s chn = chanStart s new ch0"
    and fits: "(\<forall>b\<in>set blocks. shapeFits b s)" and len: "streamLength blocks = m_switchTime s"
  shows "m_switchState (snd (snd (processBlocks blocks s))) ! chn = normal"
    and "m_delays (snd (snd (processBlocks blocks s))) ! chn = real new"
proof -
  have both: "m_switchState (snd (snd (processBlocks blocks s))) ! chn = normal \<and>
      m_delays (snd (snd (processBlocks blocks s))) ! chn = real new"
  proof (cases "effectiveSwitchTime s = 0")
    case True
    then have now: "m_switchState s ! chn = normal" "m_delays s ! chn = real new"
      unfolding chanOf_fields ch by (simp_all add: chanStart_def)
    have "chanOf (snd (snd (processBlocks blocks s))) chn = chanOf s chn"
      by (rule normal_stays [OF con chn now(1) fits])
    then show ?thesis
      unfolding chanOf_fields using now by (simp add: chanOf_def)
  next
    case False
    then have S: "0 < m_switchTime s"
      using eff_positive [of s] by simp
    have st: "m_switchState s ! chn = changeTime" and cnt: "m_switchCounter s ! chn = 0"
      and new: "m_newdelays s ! chn = new"
      unfolding chanOf_fields ch using False by (simp_all add: chanStart_def)
    from transition_done [OF con chn S st cnt fits len] new show ?thesis
      by simp
  qed
  from both show "m_switchState (snd (snd (processBlocks blocks s))) ! chn = normal"
    and "m_delays (snd (snd (processBlocks blocks s))) ! chn = real new"
    by simp_all
qed

text \<open>A request in the normal state is applied after the switch time.\<close>

lemma request_applied:
  assumes con: "consistent s" and chn: "chn < m_nrOfChns s" and d: "delay < m_maxdelay s"
    and st: "m_switchState s ! chn = normal"
    and fits: "(\<forall>b\<in>set blocks. shapeFits b s)" and len: "streamLength blocks = m_switchTime s"
  shows "m_switchState (snd (snd (processBlocks blocks (setDelay delay chn s)))) ! chn = normal"
    and "m_delays (snd (snd (processBlocks blocks (setDelay delay chn s)))) ! chn = real delay"
proof -
  let ?q = "setDelay delay chn s"
  have cfg: "sameConfig s ?q" by (rule setDelay_config)
  have conq: "consistent ?q" using con by (rule setDelay_consistent)
  have chnq: "chn < m_nrOfChns ?q" using chn cfg by (simp add: sameConfig_def)
  have fitsq: "(\<forall>b\<in>set blocks. shapeFits b ?q)" using fits sameConfig_runFits [OF cfg] by simp
  have both: "m_switchState (snd (snd (processBlocks blocks ?q))) ! chn = normal \<and>
      m_delays (snd (snd (processBlocks blocks ?q))) ! chn = real delay"
  proof (cases "real delay = m_delays s ! chn")
    case True
    then have q: "?q = s" by (rule setDelay_same)
    have "chanOf (snd (snd (processBlocks blocks s))) chn = chanOf s chn"
      by (rule normal_stays [OF con chn st fits])
    then show ?thesis
      unfolding q chanOf_fields using st True by (simp add: chanOf_def)
  next
    case False
    have ch: "chanOf ?q chn = chanStart ?q delay (chanOf s chn)"
      unfolding sameConfig_chanStart [OF cfg]
      by (rule setDelay_from_normal [OF con chn d st False])
    have lenq: "streamLength blocks = m_switchTime ?q" using len cfg by (simp add: sameConfig_def)
    from started_done [OF conq chnq ch fitsq lenq]
    show ?thesis by simp
  qed
  from both show "m_switchState (snd (snd (processBlocks blocks ?q))) ! chn = normal"
    and "m_delays (snd (snd (processBlocks blocks ?q))) ! chn = real delay"
    by simp_all
qed



subsection \<open>The status of processSamples\<close>

text \<open>
  Claim C6. \<^verbatim>\<open>processSamples\<close> returns 0 exactly when the block has at least one
  channel, no more channels than the delay line, and the maximal delay is not 0; in
  every other case it returns the non-zero status and hands back the block and the
  delay line as they were. The result is a value in every case, the block keeps its
  channel count and frame count, and a delay line that satisfies the class invariant
  satisfies it afterwards, so that every channel index and ring position used stays
  inside the vectors and the ring.
\<close>

theorem processSamples_status:
  "(fst (processSamples data s) = 0) =
     (0 < numChannels data \<and> numChannels data \<le> m_nrOfChns s \<and> 0 < m_maxdelay s) \<and>
   (fst (processSamples data s) = 0 \<or> processSamples data s = (1, data, s)) \<and>
   numChannels (fst (snd (processSamples data s))) = numChannels data \<and>
   numSamples (fst (snd (processSamples data s))) = numSamples data \<and>
   (consistent s \<longrightarrow> consistent (snd (snd (processSamples data s))))"
  by (simp add: processSamples_def shapeFits_def frames_shape frames_consistent)

theorem processSamples_status_witness:
  "consistent (BasicDelayEffect_new 44100) \<and>
   fst (processSamples (newBuffer 2 4) (BasicDelayEffect_new 44100)) = 0 \<and>
   consistent (snd (snd (processSamples (newBuffer 2 4) (BasicDelayEffect_new 44100)))) \<and>
   fst (processSamples (newBuffer 3 4) (BasicDelayEffect_new 44100)) \<noteq> 0 \<and>
   fst (processSamples (newBuffer 0 4) (BasicDelayEffect_new 44100)) \<noteq> 0 \<and>
   fst (processSamples (newBuffer 2 4) (setMaxDelay 0 (BasicDelayEffect_new 44100))) \<noteq> 0"
proof -
  have c: "consistent (BasicDelayEffect_new 44100)"
    by (rule new_consistent)
  have m: "m_maxdelay (setMaxDelay 0 (BasicDelayEffect_new 44100)) = 0"
    by (simp add: setMaxDelay_def changeBufferSize_def Let_def)
  from processSamples_status [of "newBuffer 2 4" "BasicDelayEffect_new 44100"] c
  have "fst (processSamples (newBuffer 2 4) (BasicDelayEffect_new 44100)) = 0"
    and "consistent (snd (snd (processSamples (newBuffer 2 4) (BasicDelayEffect_new 44100))))"
    by (simp_all add: new_fields newBuffer_def)
  moreover from processSamples_status [of "newBuffer 3 4" "BasicDelayEffect_new 44100"]
  have "fst (processSamples (newBuffer 3 4) (BasicDelayEffect_new 44100)) \<noteq> 0"
    by (simp add: new_fields newBuffer_def)
  moreover from processSamples_status [of "newBuffer 0 4" "BasicDelayEffect_new 44100"]
  have "fst (processSamples (newBuffer 0 4) (BasicDelayEffect_new 44100)) \<noteq> 0"
    by (simp add: newBuffer_def)
  moreover from processSamples_status [of "newBuffer 2 4" "setMaxDelay 0 (BasicDelayEffect_new 44100)"]
  have "fst (processSamples (newBuffer 2 4) (setMaxDelay 0 (BasicDelayEffect_new 44100))) \<noteq> 0"
    by (simp add: m)
  ultimately show ?thesis
    using c by simp
qed

subsection \<open>Requests and transitions\<close>




lemma scenarioLine_facts:
  "consistent scenarioLine"
  "m_fs scenarioLine = Finite 48000"
  "m_nrOfChns scenarioLine = 1"
  "m_maxdelay scenarioLine = 48000"
  "m_switchTime scenarioLine = 100"
  "m_switchState scenarioLine ! 0 = normal"
  unfolding scenarioLine_def
  by (simp_all add: consistent_def setNrOfChns_def setMaxDelay_def setSamplerate_def
      changeBufferSize_def resizeVec_def newBuffer_def Let_def new_fields new_fields2)



subsection \<open>The setters in seconds\<close>

lemma to_size_t_Finite:
  "- 1 < p \<Longrightarrow> p < 2 ^ 64 \<Longrightarrow> to_size_t (Finite p) = Some (nat \<lfloor>p\<rfloor>)"
  by (simp add: to_size_t_def)

lemma seconds_in_range:
  assumes "fmul roundFloat delay_s (m_fs s) = Finite p" and "- 1 < p" and "p < 2 ^ 64"
  shows "setDelay_s delay_s chn s = Inr (setDelay (nat \<lfloor>p\<rfloor>) chn s)"
    and "setMaxDelay_s delay_s s = Inr (setMaxDelay (nat \<lfloor>p\<rfloor>) s)"
  by (simp_all add: setDelay_s_def setMaxDelay_s_def assms(1) to_size_t_Finite [OF assms(2,3)])

lemma seconds_exact:
  assumes "m_fs s = Finite fs" and "isFloat (t * fs)" and "- 1 < t * fs" and "t * fs < 2 ^ 64"
  shows "setDelay_s (Finite t) chn s = Inr (setDelay (nat \<lfloor>t * fs\<rfloor>) chn s)"
    and "setMaxDelay_s (Finite t) s = Inr (setMaxDelay (nat \<lfloor>t * fs\<rfloor>) s)"
proof -
  have "fmul roundFloat (Finite t) (m_fs s) = Finite (t * fs)"
    using assms(1,2) by (simp add: isFloat_def)
  then show "setDelay_s (Finite t) chn s = Inr (setDelay (nat \<lfloor>t * fs\<rfloor>) chn s)"
    and "setMaxDelay_s (Finite t) s = Inr (setMaxDelay (nat \<lfloor>t * fs\<rfloor>) s)"
    using assms(3,4) by (rule seconds_in_range)+
qed

lemma seconds_undefined:
  assumes "fmul roundFloat delay_s (m_fs s) = Finite p \<and> (p \<le> - 1 \<or> 2 ^ 64 \<le> p) \<or>
    fmul roundFloat delay_s (m_fs s) = PInf \<or> fmul roundFloat delay_s (m_fs s) = NInf \<or>
    fmul roundFloat delay_s (m_fs s) = NaN"
  shows "setDelay_s delay_s chn s = Inl CastOutOfRange"
    and "setMaxDelay_s delay_s s = Inl CastOutOfRange"
  using assms by (auto simp add: setDelay_s_def setMaxDelay_s_def to_size_t_def)

lemma half_second_at_48000:
  assumes "m_fs s = Finite 48000"
  shows "setDelay_s (Finite (1 / 2)) 0 s = Inr (setDelay 24000 0 s)"
proof -
  have "isFloat (1 / 2 * 48000)"
    using isFloat_24000 by simp
  from seconds_exact(1) [OF assms this] show ?thesis
    by simp
qed

text \<open>
  Claim C8 as it is stated fails. The product of the seconds and the sample rate is a
  \<^verbatim>\<open>float\<close>, so it is rounded before it is truncated. For the \<^verbatim>\<open>float\<close> nearest to 0.01
  and the sample rate 44100 the exact product is a little less than 441 and truncates to
  440; the rounded product is 441, and that is the delay \<^verbatim>\<open>setDelay_s\<close> requests and the
  capacity \<^verbatim>\<open>setMaxDelay_s\<close> sets.
\<close>

theorem seconds_setters_round_before_truncating:
  "isFloat (10737418 / 2 ^ 30) \<and> isFloat 44100 \<and>
   m_fs (BasicDelayEffect_new 44100) = Finite 44100 \<and>
   nat \<lfloor>10737418 / 2 ^ 30 * 44100 :: real\<rfloor> = 440 \<and>
   to_size_t (fmul roundFloat (Finite (10737418 / 2 ^ 30)) (m_fs (BasicDelayEffect_new 44100)))
     = Some 441 \<and>
   setDelay_s (Finite (10737418 / 2 ^ 30)) 0 (BasicDelayEffect_new 44100) =
     Inr (setDelay 441 0 (BasicDelayEffect_new 44100)) \<and>
   setMaxDelay_s (Finite (10737418 / 2 ^ 30)) (BasicDelayEffect_new 44100) =
     Inr (setMaxDelay 441 (BasicDelayEffect_new 44100)) \<and>
   m_maxdelay (setMaxDelay 441 (BasicDelayEffect_new 44100)) = 441"
proof -
  have p: "fmul roundFloat (Finite (10737418 / 2 ^ 30)) (m_fs (BasicDelayEffect_new 44100))
      = Finite 441"
    using hundredth_times_44100 by (simp add: new_fields2)
  have "to_size_t (fmul roundFloat (Finite (10737418 / 2 ^ 30)) (m_fs (BasicDelayEffect_new 44100)))
      = Some 441"
    unfolding p by (simp add: to_size_t_def)
  moreover from seconds_in_range(1) [OF p, where chn = 0] seconds_in_range(2) [OF p]
  have "setDelay_s (Finite (10737418 / 2 ^ 30)) 0 (BasicDelayEffect_new 44100) =
     Inr (setDelay 441 0 (BasicDelayEffect_new 44100))"
    and "setMaxDelay_s (Finite (10737418 / 2 ^ 30)) (BasicDelayEffect_new 44100) =
     Inr (setMaxDelay 441 (BasicDelayEffect_new 44100))"
    by simp_all
  moreover have "m_maxdelay (setMaxDelay 441 (BasicDelayEffect_new 44100)) = 441"
    by (simp add: setMaxDelay_def changeBufferSize_def Let_def)
  ultimately show ?thesis
    using isFloat_hundredth isFloat_44100 hundredth_times_44100_exact
    by (simp add: new_fields2)
qed

text \<open>
  Claim C8, as the code has it. \<^verbatim>\<open>setDelay_s\<close> and \<^verbatim>\<open>setMaxDelay_s\<close> multiply the seconds by
  the sample rate in \<^verbatim>\<open>float\<close>, truncate the rounded product to a \<^verbatim>\<open>size_t\<close> and call the
  setter in samples with it; \<^verbatim>\<open>setMaxDelay\<close> makes it the capacity. When the exact product
  is a \<^verbatim>\<open>float\<close>, that is the exact product truncated. When the rounded product is NaN,
  an infinity, at most -1 or at least \<open>2\<^sup>6\<^sup>4\<close>, the conversion is undefined. At the sample
  rate 48000, half a second is a request for 24000 samples, and on a channel in the
  normal state with a capacity above 24000 the active delay is 24000 once the transition
  is over, that is after a run of blocks with as many frames as the switch time.
\<close>

theorem seconds_setters_truncate_rounded_product:
  "(fmul roundFloat delay_s (m_fs s) = Finite p \<and> - 1 < p \<and> p < 2 ^ 64 \<longrightarrow>
      setDelay_s delay_s chn s = Inr (setDelay (nat \<lfloor>p\<rfloor>) chn s) \<and>
      setMaxDelay_s delay_s s = Inr (setMaxDelay (nat \<lfloor>p\<rfloor>) s) \<and>
      m_maxdelay (setMaxDelay (nat \<lfloor>p\<rfloor>) s) = nat \<lfloor>p\<rfloor>) \<and>
   (m_fs s = Finite fs \<and> isFloat (t * fs) \<and> - 1 < t * fs \<and> t * fs < 2 ^ 64 \<longrightarrow>
      setDelay_s (Finite t) chn s = Inr (setDelay (nat \<lfloor>t * fs\<rfloor>) chn s) \<and>
      setMaxDelay_s (Finite t) s = Inr (setMaxDelay (nat \<lfloor>t * fs\<rfloor>) s)) \<and>
   (fmul roundFloat delay_s (m_fs s) = Finite p \<and> (p \<le> - 1 \<or> 2 ^ 64 \<le> p) \<or>
    fmul roundFloat delay_s (m_fs s) = PInf \<or> fmul roundFloat delay_s (m_fs s) = NInf \<or>
    fmul roundFloat delay_s (m_fs s) = NaN \<longrightarrow>
      setDelay_s delay_s chn s = Inl CastOutOfRange \<and>
      setMaxDelay_s delay_s s = Inl CastOutOfRange) \<and>
   (m_fs s = Finite 48000 \<longrightarrow> setDelay_s (Finite (1 / 2)) 0 s = Inr (setDelay 24000 0 s)) \<and>
   (m_fs s = Finite 48000 \<and> consistent s \<and> 0 < m_nrOfChns s \<and> 24000 < m_maxdelay s \<and>
    m_switchState s ! 0 = normal \<and>
    (\<forall>b\<in>set blocks. shapeFits b s) \<and> streamLength blocks = m_switchTime s \<longrightarrow>
      (\<exists>q. setDelay_s (Finite (1 / 2)) 0 s = Inr q \<and>
           m_switchState (snd (snd (processBlocks blocks q))) ! 0 = normal \<and>
           m_delays (snd (snd (processBlocks blocks q))) ! 0 = 24000))"
proof (intro conjI impI)
  assume r: "fmul roundFloat delay_s (m_fs s) = Finite p \<and> - 1 < p \<and> p < 2 ^ 64"
  then have r: "fmul roundFloat delay_s (m_fs s) = Finite p" "- 1 < p" "p < 2 ^ 64"
    by simp_all
  show "setDelay_s delay_s chn s = Inr (setDelay (nat \<lfloor>p\<rfloor>) chn s)"
    by (rule seconds_in_range(1) [OF r])
  show "setMaxDelay_s delay_s s = Inr (setMaxDelay (nat \<lfloor>p\<rfloor>) s)"
    by (rule seconds_in_range(2) [OF r])
  show "m_maxdelay (setMaxDelay (nat \<lfloor>p\<rfloor>) s) = nat \<lfloor>p\<rfloor>"
    by (simp add: setMaxDelay_def changeBufferSize_def Let_def)
next
  assume "m_fs s = Finite fs \<and> isFloat (t * fs) \<and> - 1 < t * fs \<and> t * fs < 2 ^ 64"
  then have e: "m_fs s = Finite fs" "isFloat (t * fs)" "- 1 < t * fs" "t * fs < 2 ^ 64"
    by simp_all
  show "setDelay_s (Finite t) chn s = Inr (setDelay (nat \<lfloor>t * fs\<rfloor>) chn s)"
    by (rule seconds_exact(1) [OF e])
  show "setMaxDelay_s (Finite t) s = Inr (setMaxDelay (nat \<lfloor>t * fs\<rfloor>) s)"
    by (rule seconds_exact(2) [OF e])
next
  assume u: "fmul roundFloat delay_s (m_fs s) = Finite p \<and> (p \<le> - 1 \<or> 2 ^ 64 \<le> p) \<or>
    fmul roundFloat delay_s (m_fs s) = PInf \<or> fmul roundFloat delay_s (m_fs s) = NInf \<or>
    fmul roundFloat delay_s (m_fs s) = NaN"
  show "setDelay_s delay_s chn s = Inl CastOutOfRange"
    by (rule seconds_undefined(1) [OF u])
  show "setMaxDelay_s delay_s s = Inl CastOutOfRange"
    by (rule seconds_undefined(2) [OF u])
next
  assume "m_fs s = Finite 48000"
  then show "setDelay_s (Finite (1 / 2)) 0 s = Inr (setDelay 24000 0 s)"
    by (rule half_second_at_48000)
next
  assume a: "m_fs s = Finite 48000 \<and> consistent s \<and> 0 < m_nrOfChns s \<and> 24000 < m_maxdelay s \<and>
    m_switchState s ! 0 = normal \<and>
    (\<forall>b\<in>set blocks. shapeFits b s) \<and> streamLength blocks = m_switchTime s"
  then have q: "setDelay_s (Finite (1 / 2)) 0 s = Inr (setDelay 24000 0 s)"
    by (simp add: half_second_at_48000)
  from a have h: "consistent s" "0 < m_nrOfChns s" "24000 < m_maxdelay s"
    "m_switchState s ! 0 = normal" "(\<forall>b\<in>set blocks. shapeFits b s)" "streamLength blocks = m_switchTime s"
    by simp_all
  from request_applied [OF h] q
  show "\<exists>q. setDelay_s (Finite (1 / 2)) 0 s = Inr q \<and>
           m_switchState (snd (snd (processBlocks blocks q))) ! 0 = normal \<and>
           m_delays (snd (snd (processBlocks blocks q))) ! 0 = 24000"
    by simp
qed

theorem seconds_setters_truncate_rounded_product_witness:
  "fmul roundFloat (Finite (1 / 128)) (m_fs (BasicDelayEffect_new 44100)) = Finite (44100 / 128) \<and>
   nat \<lfloor>44100 / 128 :: real\<rfloor> = 344 \<and>
   setDelay_s (Finite (1 / 128)) 1 (BasicDelayEffect_new 44100) =
     Inr (setDelay 344 1 (BasicDelayEffect_new 44100)) \<and>
   setMaxDelay_s (Finite (1 / 128)) (BasicDelayEffect_new 44100) =
     Inr (setMaxDelay 344 (BasicDelayEffect_new 44100)) \<and>
   m_maxdelay (setMaxDelay 344 (BasicDelayEffect_new 44100)) = 344 \<and>
   isFloat (1 * 48000) \<and>
   setMaxDelay_s (Finite 1) (setSamplerate (Finite 48000) (BasicDelayEffect_new 44100)) =
     Inr (setMaxDelay 48000 (setSamplerate (Finite 48000) (BasicDelayEffect_new 44100))) \<and>
   fmul roundFloat NaN (m_fs (BasicDelayEffect_new 44100)) = NaN \<and>
   setDelay_s NaN 1 (BasicDelayEffect_new 44100) = Inl CastOutOfRange \<and>
   m_fs scenarioLine = Finite 48000 \<and> m_maxdelay scenarioLine = 48000 \<and>
   setDelay_s (Finite (1 / 2)) 0 scenarioLine = Inr (setDelay 24000 0 scenarioLine) \<and>
   m_switchState (snd (snd (processBlocks [newBuffer 1 64, newBuffer 1 36] (setDelay 24000 0 scenarioLine)))) ! 0
     = normal \<and>
   m_delays (snd (snd (processBlocks [newBuffer 1 64, newBuffer 1 36] (setDelay 24000 0 scenarioLine)))) ! 0
     = 24000"
proof -
  let ?n = "BasicDelayEffect_new 44100"
  let ?s0 = "setSamplerate (Finite 48000) (BasicDelayEffect_new 44100)"
  let ?b = "[newBuffer 1 64, newBuffer 1 36]"
  have p: "fmul roundFloat (Finite (1 / 128)) (m_fs ?n) = Finite (44100 / 128)"
    using isFloat_44100_128th by (simp add: new_fields2 isFloat_def)
  have fl: "nat \<lfloor>44100 / 128 :: real\<rfloor> = 344"
    by simp
  have pr: "- 1 < (44100 / 128 :: real)" "(44100 / 128 :: real) < 2 ^ 64"
    by simp_all
  from seconds_setters_truncate_rounded_product
    [where delay_s = "Finite (1 / 128)" and s = ?n and p = "44100 / 128" and chn = 1] p pr
  have 1: "setDelay_s (Finite (1 / 128)) 1 ?n = Inr (setDelay 344 1 ?n) \<and>
      setMaxDelay_s (Finite (1 / 128)) ?n = Inr (setMaxDelay 344 ?n) \<and>
      m_maxdelay (setMaxDelay 344 ?n) = 344"
    by (simp add: fl)
  have e: "m_fs ?s0 = Finite 48000" "isFloat (1 * 48000)" "- 1 < (1 * 48000 :: real)"
    "(1 * 48000 :: real) < 2 ^ 64"
    using isFloat_48000 by (simp_all add: setSamplerate_def)
  from seconds_setters_truncate_rounded_product [where s = ?s0 and fs = 48000 and t = 1] e
  have 2: "setMaxDelay_s (Finite 1) ?s0 = Inr (setMaxDelay 48000 ?s0)"
    by simp
  have u: "fmul roundFloat NaN (m_fs ?n) = NaN"
    by (simp add: new_fields2)
  from seconds_setters_truncate_rounded_product [where delay_s = NaN and s = ?n and chn = 1] u
  have 3: "setDelay_s NaN 1 ?n = Inl CastOutOfRange"
    by simp
  have h: "m_fs scenarioLine = Finite 48000 \<and> consistent scenarioLine \<and> 0 < m_nrOfChns scenarioLine \<and>
    24000 < m_maxdelay scenarioLine \<and>
    m_switchState scenarioLine ! 0 = normal \<and>
    (\<forall>b\<in>set ?b. shapeFits b scenarioLine) \<and> streamLength ?b = m_switchTime scenarioLine"
    by (simp add: scenarioLine_facts shapeFits_def newBuffer_def streamLength_def)
  from seconds_setters_truncate_rounded_product [where s = scenarioLine and blocks = ?b] h
  have 4: "setDelay_s (Finite (1 / 2)) 0 scenarioLine = Inr (setDelay 24000 0 scenarioLine)"
    and 5: "\<exists>q. setDelay_s (Finite (1 / 2)) 0 scenarioLine = Inr q \<and>
           m_switchState (snd (snd (processBlocks ?b q))) ! 0 = normal \<and>
           m_delays (snd (snd (processBlocks ?b q))) ! 0 = 24000"
    by blast+
  from 4 5 have "m_switchState (snd (snd (processBlocks ?b (setDelay 24000 0 scenarioLine)))) ! 0
       = normal \<and>
     m_delays (snd (snd (processBlocks ?b (setDelay 24000 0 scenarioLine)))) ! 0 = 24000"
    by auto
  with 1 2 3 4 p fl u e(2) show ?thesis
    by (simp add: scenarioLine_facts)
qed

subsection \<open>The digital algorithm as a pure delay\<close>

lemma ringPos_nat:
  assumes "d \<le> len" and "0 < len"
  shows "ringPos len ((w0 + i) mod len) d = (w0 + i + len - d) mod len"
proof -
  have "(int ((w0 + i) mod len) - int d + int len) mod int len
      = (int (w0 + i) mod int len - int d + int len) mod int len"
    by (simp add: zmod_int)
  also have "\<dots> = (int (w0 + i) - int d + int len) mod int len"
    by (simp add: mod_simps)
  also have "\<dots> = int (w0 + i + len - d) mod int len"
    using assms(1) by (simp add: of_nat_diff algebra_simps)
  also have "\<dots> = int ((w0 + i + len - d) mod len)"
    by (simp add: zmod_int)
  finally show ?thesis
    by (simp add: ringPos_def)
qed

lemma mod_distinct:
  fixes a b len :: nat
  assumes "a < b" and "b - a < len"
  shows "a mod len \<noteq> b mod len"
proof
  assume "a mod len = b mod len"
  then have "len dvd b - a"
    using assms(1) by (metis mod_eq_dvd_iff_nat less_imp_le)
  moreover have "0 < b - a" using assms(1) by simp
  ultimately have "len \<le> b - a" by (rule_tac dvd_imp_le)
  with assms(2) show False by simp
qed

lemma readAt_whole: "readAt s chn (real d) = ringRead s chn d"
  by (simp add: readAt_def)

lemma digital_read:
  assumes "m_switchalgorithm s = digital" and "targets (chanOf s chn) d"
  shows "switchedRead s chn = ringRead s chn d"
  using assms
  by (auto simp add: switchedRead_def targets_def chanOf_def effectiveSwitchTime_def
      readAt_whole Let_def)

lemma digital_step:
  assumes "m_switchalgorithm s = digital" and "targets ch d"
  shows "targets (chanStep s ch) d"
  using assms by (auto simp add: chanStep_def targets_def effectiveSwitchTime_def)

lemma setDelay_targets:
  assumes "consistent s" and "chn < m_nrOfChns s" and "delay < m_maxdelay s"
    and "m_switchState s ! chn = normal"
  shows "targets (chanOf (setDelay delay chn s) chn) delay"
proof (cases "real delay = m_delays s ! chn")
  case True
  then show ?thesis
    using assms(4) by (simp add: setDelay_def targets_def chanOf_def)
next
  case False
  show ?thesis
    unfolding setDelay_from_normal [OF assms False] by (simp add: targets_def chanStart_def)
qed

lemma processChannel_other:
  assumes "c \<noteq> chn"
  shows "samples (fst (processChannel frame chn ds)) c = samples (fst ds) c"
    and "samples (m_buffer (snd (processChannel frame chn ds))) c = samples (m_buffer (snd ds)) c"
    and "m_oldOut (snd (processChannel frame chn ds)) ! c = m_oldOut (snd ds) ! c"
  using assms by (simp_all add: processChannel_def writeRing_def setSample_def Let_def)

lemma channels_other:
  assumes "n \<le> c"
  shows "samples (fst (fold (processChannel frame) [0..<n] ds)) c = samples (fst ds) c"
    and "samples (m_buffer (snd (fold (processChannel frame) [0..<n] ds))) c
           = samples (m_buffer (snd ds)) c"
    and "m_oldOut (snd (fold (processChannel frame) [0..<n] ds)) ! c = m_oldOut (snd ds) ! c"
  using assms by (induction n) (simp_all add: processChannel_other)

lemma switchedRead_cong:
  assumes "samples (m_buffer s') chn = samples (m_buffer s) chn"
    and "m_writePos s' = m_writePos s" and "sameConfig s s'" and "sameMachine s s'"
  shows "switchedRead s' chn = switchedRead s chn"
proof -
  have "ringRead s' chn = ringRead s chn"
    using assms(1-3) by (intro ext) (simp add: ringRead_def getSample_def sameConfig_def)
  then have "readAt s' chn = readAt s chn"
    by (intro ext) (simp add: readAt_def Let_def)
  then show ?thesis
    using assms(3,4) sameConfig_eff [OF assms(3)]
    by (simp add: switchedRead_def sameConfig_def sameMachine_def Let_def
        split: switchAlgorithm.splits)
qed

lemma processChannel_self:
  "samples (m_buffer (snd (processChannel frame chn ds))) chn =
     (samples (m_buffer (snd ds)) chn)
       (m_writePos (snd ds) :=
          samples (fst ds) chn frame + m_feedback (snd ds) ! chn * m_oldOut (snd ds) ! chn)"
  "samples (fst (processChannel frame chn ds)) chn =
     (samples (fst ds) chn)
       (frame := switchedRead
          (writeRing chn
             (samples (fst ds) chn frame + m_feedback (snd ds) ! chn * m_oldOut (snd ds) ! chn)
             (snd ds)) chn)"
  by (simp_all add: processChannel_def writeRing_def setSample_def getSample_def Let_def)

lemma writeRing_cong:
  assumes "samples (m_buffer s') chn = samples (m_buffer s) chn"
    and "m_writePos s' = m_writePos s" and "sameConfig s s'" and "sameMachine s s'"
  shows "switchedRead (writeRing chn v s') chn = switchedRead (writeRing chn v s) chn"
proof (rule switchedRead_cong)
  show "samples (m_buffer (writeRing chn v s')) chn = samples (m_buffer (writeRing chn v s)) chn"
    using assms(1,2) by (simp add: writeRing_def setSample_def)
  show "m_writePos (writeRing chn v s') = m_writePos (writeRing chn v s)"
    using assms(2) by (simp add: writeRing_def)
  show "sameConfig (writeRing chn v s) (writeRing chn v s')"
    using assms(3) by (simp add: writeRing_def sameConfig_def)
  show "sameMachine (writeRing chn v s) (writeRing chn v s')"
    using assms(4) by (simp add: writeRing_def sameMachine_def)
qed

lemma channels_self:
  fixes ds :: "AudioBuffer \<times> BasicDelayEffect" and frame c n :: nat
  assumes "c < n"
  defines "v \<equiv> samples (fst ds) c frame + m_feedback (snd ds) ! c * m_oldOut (snd ds) ! c"
  shows "samples (m_buffer (snd (fold (processChannel frame) [0..<n] ds))) c =
           (samples (m_buffer (snd ds)) c)(m_writePos (snd ds) := v)"
    and "samples (fst (fold (processChannel frame) [0..<n] ds)) c =
           (samples (fst ds) c)(frame := switchedRead (writeRing c v (snd ds)) c)"
proof -
  have "samples (m_buffer (snd (fold (processChannel frame) [0..<n] ds))) c =
           (samples (m_buffer (snd ds)) c)(m_writePos (snd ds) := v) \<and>
        samples (fst (fold (processChannel frame) [0..<n] ds)) c =
           (samples (fst ds) c)(frame := switchedRead (writeRing c v (snd ds)) c)"
    using assms(1)
  proof (induction n)
    case 0
    then show ?case by simp
  next
    case (Suc n)
    let ?r = "fold (processChannel frame) [0..<n] ds"
    show ?case
    proof (cases "c = n")
      case False
      then have "c < n" using Suc.prems by simp
      with Suc.IH False show ?thesis
        by (simp add: processChannel_other)
    next
      case True
      have le: "n \<le> c" using True by simp
      note keep = channels_other [OF le, of frame ds]
      have cfg: "sameConfig (snd ds) (snd ?r)" by (rule channels_config)
      have mach: "sameMachine (snd ds) (snd ?r)" by (rule channels_machine)
      have wp: "m_writePos (snd ?r) = m_writePos (snd ds)" by (rule channels_writePos)
      have v: "samples (fst ?r) c frame + m_feedback (snd ?r) ! c * m_oldOut (snd ?r) ! c = v"
        using keep cfg by (simp add: v_def sameConfig_def)
      have rd: "switchedRead (writeRing c v (snd ?r)) c = switchedRead (writeRing c v (snd ds)) c"
        by (rule writeRing_cong [OF keep(2) wp cfg mach])
      have step: "fold (processChannel frame) [0..<Suc n] ds = processChannel frame c ?r"
        using True by simp
      have "samples (m_buffer (snd (processChannel frame c ?r))) c =
           (samples (m_buffer (snd ?r)) c)(m_writePos (snd ?r) := v)"
        using processChannel_self(1) [of frame c ?r] unfolding v .
      then have "samples (m_buffer (snd (processChannel frame c ?r))) c =
           (samples (m_buffer (snd ds)) c)(m_writePos (snd ds) := v)"
        unfolding keep(2) wp .
      moreover have "samples (fst (processChannel frame c ?r)) c =
           (samples (fst ?r) c)(frame := switchedRead (writeRing c v (snd ?r)) c)"
        using processChannel_self(2) [of frame c ?r] unfolding v .
      then have "samples (fst (processChannel frame c ?r)) c =
           (samples (fst ds) c)(frame := switchedRead (writeRing c v (snd ds)) c)"
        unfolding keep(1) rd .
      ultimately show ?thesis
        unfolding step by (rule conjI)
    qed
  qed
  then show "samples (m_buffer (snd (fold (processChannel frame) [0..<n] ds))) c =
           (samples (m_buffer (snd ds)) c)(m_writePos (snd ds) := v)"
    and "samples (fst (fold (processChannel frame) [0..<n] ds)) c =
           (samples (fst ds) c)(frame := switchedRead (writeRing c v (snd ds)) c)"
    by simp_all
qed

lemma processFrame_audio:
  fixes ds :: "AudioBuffer \<times> BasicDelayEffect" and frame c :: nat
  assumes "c < numChannels (fst ds)"
  defines "v \<equiv> samples (fst ds) c frame + m_feedback (snd ds) ! c * m_oldOut (snd ds) ! c"
  shows "samples (m_buffer (snd (processFrame frame ds))) c =
           (samples (m_buffer (snd ds)) c)(m_writePos (snd ds) := v)"
    and "samples (fst (processFrame frame ds)) c =
           (samples (fst ds) c)(frame := switchedRead (writeRing c v (snd ds)) c)"
    and "m_writePos (snd (processFrame frame ds)) =
           (m_writePos (snd ds) + 1) mod m_maxdelay (snd ds)"
proof -
  let ?ds1 = "fold (processChannel frame) [0..<numChannels (fst ds)] ds"
  have cfg: "sameConfig (snd ds) (snd ?ds1)" by (rule channels_config)
  show "samples (m_buffer (snd (processFrame frame ds))) c =
           (samples (m_buffer (snd ds)) c)(m_writePos (snd ds) := v)"
    using channels_self(1) [OF assms(1), of frame ds]
    by (simp add: processFrame_def Let_def advanceAll_audio v_def)
  show "samples (fst (processFrame frame ds)) c =
           (samples (fst ds) c)(frame := switchedRead (writeRing c v (snd ds)) c)"
    using channels_self(2) [OF assms(1), of frame ds]
    by (simp add: processFrame_def Let_def v_def)
  show "m_writePos (snd (processFrame frame ds)) =
           (m_writePos (snd ds) + 1) mod m_maxdelay (snd ds)"
    using cfg by (simp add: processFrame_def Let_def advanceAll_audio channels_writePos
        sameConfig_def)
qed

lemma writeRing_fields:
  "chanOf (writeRing chn v s) c = chanOf s c"
  "m_switchalgorithm (writeRing chn v s) = m_switchalgorithm s"
  "m_maxdelay (writeRing chn v s) = m_maxdelay s"
  "m_writePos (writeRing chn v s) = m_writePos s"
  "samples (m_buffer (writeRing chn v s)) chn = (samples (m_buffer s) chn)(m_writePos s := v)"
  by (simp_all add: writeRing_def chanOf_def setSample_def)

lemma digital_frames:
  fixes data :: AudioBuffer and s :: BasicDelayEffect and c d :: nat
  assumes con: "consistent s" and fits: "shapeFits data s" and c: "c < numChannels data"
    and dig: "m_switchalgorithm s = digital" and fb: "m_feedback s ! c = 0"
    and tg: "targets (chanOf s c) d" and d: "d < m_maxdelay s"
  defines "M \<equiv> m_maxdelay s" and "w0 \<equiv> m_writePos s"
  defines "r \<equiv> \<lambda>n. fold processFrame [0..<n] (data, s)"
  shows "m_writePos (snd (r n)) = (w0 + n) mod M \<and>
     targets (chanOf (snd (r n)) c) d \<and>
     (\<forall>k\<ge>n. samples (fst (r n)) c k = samples data c k) \<and>
     (\<forall>j<n. n \<le> j + M \<longrightarrow> samples (m_buffer (snd (r n))) c ((w0 + j) mod M) = samples data c j) \<and>
     (\<forall>p. (\<forall>j<n. (w0 + j) mod M \<noteq> p) \<longrightarrow>
          samples (m_buffer (snd (r n))) c p = samples (m_buffer s) c p) \<and>
     (\<forall>k<n. samples (fst (r n)) c k = delayedBy data s c d k)"
proof (induction n)
  case 0
  have "w0 < M"
    using con fits by (simp add: consistent_def shapeFits_def M_def w0_def)
  then show ?case
    using tg by (simp add: r_def w0_def)
next
  case (Suc n)
  define ds where "ds = r n"
  define row where "row = samples (m_buffer (snd ds)) c"
  define x where "x = samples data c n"
  define wn where "wn = (w0 + n) mod M"
  define pos where "pos = (w0 + n + M - d) mod M"
  have M: "0 < M" using fits by (simp add: shapeFits_def M_def)
  have dM: "d < M" using d by (simp add: M_def)
  from Suc have wp: "m_writePos (snd ds) = wn"
    and tgn: "targets (chanOf (snd ds) c) d"
    and later: "\<And>k. n \<le> k \<Longrightarrow> samples (fst ds) c k = samples data c k"
    and hist: "\<And>j. j < n \<Longrightarrow> n \<le> j + M \<Longrightarrow> row ((w0 + j) mod M) = samples data c j"
    and old: "\<And>p. (\<forall>j<n. (w0 + j) mod M \<noteq> p) \<Longrightarrow> row p = samples (m_buffer s) c p"
    and out: "\<And>k. k < n \<Longrightarrow> samples (fst ds) c k = delayedBy data s c d k"
    by (simp_all add: ds_def row_def wn_def)
  have cfg: "sameConfig s (snd ds)"
    unfolding ds_def r_def using frames_config [of "(data, s)" n] by simp
  have conn: "consistent (snd ds)"
    unfolding ds_def r_def using frames_consistent [of "(data, s)" n] con fits
    by (simp add: shapeFits_def)
  have shape: "numChannels (fst ds) = numChannels data"
    unfolding ds_def r_def by (simp add: frames_shape)
  have Mn: "m_maxdelay (snd ds) = M" and dign: "m_switchalgorithm (snd ds) = digital"
    and fbn: "m_feedback (snd ds) ! c = 0" and chn: "c < m_nrOfChns (snd ds)"
    using cfg dig fb c fits by (simp_all add: sameConfig_def M_def shapeFits_def)
  have cn: "c < numChannels (fst ds)" using c shape by simp
  have v: "samples (fst ds) c n + m_feedback (snd ds) ! c * m_oldOut (snd ds) ! c = x"
    using later [of n] by (simp add: fbn x_def)
  have step: "r (Suc n) = processFrame n ds"
    by (simp add: r_def ds_def)
  note audio = processFrame_audio [OF cn, of n, unfolded v wp Mn, folded step]
  have row': "samples (m_buffer (snd (r (Suc n)))) c = row(wn := x)"
    using audio(1) by (simp add: row_def)
  have posn: "ringPos M wn d = pos"
    unfolding wn_def pos_def using dM M by (intro ringPos_nat) simp_all
  have y: "switchedRead (writeRing c x (snd ds)) c = (row(wn := x)) pos"
  proof -
    have "targets (chanOf (writeRing c x (snd ds)) c) d"
      using tgn by (simp add: writeRing_fields)
    then have "switchedRead (writeRing c x (snd ds)) c = ringRead (writeRing c x (snd ds)) c d"
      by (intro digital_read) (simp_all add: writeRing_fields dign)
    also have "\<dots> = (row(wn := x)) pos"
      by (simp add: ringRead_def getSample_def writeRing_fields Mn wp posn row_def)
    finally show ?thesis .
  qed
  have data': "samples (fst (r (Suc n))) c = (samples (fst ds) c)(n := (row(wn := x)) pos)"
    using audio(2) by (simp add: y)
  have A: "m_writePos (snd (r (Suc n))) = (w0 + Suc n) mod M"
    using audio(3) by (simp add: wn_def mod_Suc_eq)
  have B: "targets (chanOf (snd (r (Suc n))) c) d"
  proof -
    have "chanOf (snd (processFrame n ds)) c = chanStep (snd ds) (chanOf (snd ds) c)"
      using M by (intro processFrame_chan conn chn) (simp add: Mn)
    then show ?thesis
      using digital_step [OF dign tgn] by (simp add: step)
  qed
  have C: "\<forall>k\<ge>Suc n. samples (fst (r (Suc n))) c k = samples data c k"
    using later by (simp add: data')
  have D: "\<forall>j<Suc n. Suc n \<le> j + M \<longrightarrow>
      samples (m_buffer (snd (r (Suc n)))) c ((w0 + j) mod M) = samples data c j"
  proof (intro allI impI)
    fix j assume j: "j < Suc n" and near: "Suc n \<le> j + M"
    show "samples (m_buffer (snd (r (Suc n)))) c ((w0 + j) mod M) = samples data c j"
    proof (cases "j = n")
      case True
      then show ?thesis by (simp add: row' wn_def x_def)
    next
      case False
      then have jn: "j < n" using j by simp
      have "(w0 + j) mod M \<noteq> (w0 + n) mod M"
        using jn near by (intro mod_distinct) simp_all
      then show ?thesis
        using hist [OF jn] near by (simp add: row' wn_def)
    qed
  qed
  have E: "\<forall>p. (\<forall>j<Suc n. (w0 + j) mod M \<noteq> p) \<longrightarrow>
      samples (m_buffer (snd (r (Suc n)))) c p = samples (m_buffer s) c p"
  proof (intro allI impI)
    fix p assume fresh: "\<forall>j<Suc n. (w0 + j) mod M \<noteq> p"
    then have "wn \<noteq> p" and "\<forall>j<n. (w0 + j) mod M \<noteq> p"
      by (simp_all add: wn_def)
    then show "samples (m_buffer (snd (r (Suc n)))) c p = samples (m_buffer s) c p"
      using old [of p] by (simp add: row')
  qed
  have now: "(row(wn := x)) pos = delayedBy data s c d n"
  proof (cases "d \<le> n")
    case True
    show ?thesis
    proof (cases "d = 0")
      case True
      then have "pos = wn" by (simp add: pos_def wn_def)
      then show ?thesis using True by (simp add: delayedBy_def getSample_def x_def)
    next
      case False
      have "w0 + n + M - d = w0 + (n - d) + M"
        using \<open>d \<le> n\<close> by simp
      then have p: "pos = (w0 + (n - d)) mod M"
        unfolding pos_def by (simp only: mod_add_self2)
      have "(w0 + (n - d)) mod M \<noteq> (w0 + n) mod M"
        using False \<open>d \<le> n\<close> dM by (intro mod_distinct) simp_all
      then have "(row(wn := x)) pos = row ((w0 + (n - d)) mod M)"
        by (simp add: p wn_def)
      also have "\<dots> = samples data c (n - d)"
        using False \<open>d \<le> n\<close> dM by (intro hist) simp_all
      finally show ?thesis
        using \<open>d \<le> n\<close> by (simp add: delayedBy_def getSample_def)
    qed
  next
    case False
    then have nd: "n < d" by simp
    have "(w0 + n) mod M \<noteq> (w0 + n + M - d) mod M"
      using nd dM by (intro mod_distinct) simp_all
    then have "(row(wn := x)) pos = row pos"
      by (simp add: pos_def wn_def)
    also have "\<dots> = samples (m_buffer s) c pos"
    proof (rule old, intro allI impI)
      fix j assume "j < n"
      then show "(w0 + j) mod M \<noteq> pos"
        unfolding pos_def using nd dM by (intro mod_distinct) simp_all
    qed
    finally show ?thesis
      using nd by (simp add: delayedBy_def getSample_def pos_def M_def w0_def)
  qed
  have F: "\<forall>k<Suc n. samples (fst (r (Suc n))) c k = delayedBy data s c d k"
  proof (intro allI impI)
    fix k assume "k < Suc n"
    then show "samples (fst (r (Suc n))) c k = delayedBy data s c d k"
      using out [of k] now by (cases "k = n") (simp_all add: data')
  qed
  from A B C D E F show ?case by blast
qed

lemma digital_block:
  fixes data :: AudioBuffer and s :: BasicDelayEffect and c d :: nat
  assumes con: "consistent s" and fits: "shapeFits data s" and c: "c < numChannels data"
    and dig: "m_switchalgorithm s = digital" and fb: "m_feedback s ! c = 0"
    and tg: "targets (chanOf s c) d" and d: "d < m_maxdelay s"
  defines "s1 \<equiv> snd (snd (processSamples data s))"
  shows "targets (chanOf s1 c) d"
    and "\<forall>k<numSamples data. getSample (fst (snd (processSamples data s))) c k = delayedBy data s c d k"
    and "\<forall>k<d. getSample (m_buffer s1) c ((m_writePos s1 + k + m_maxdelay s - d) mod m_maxdelay s) =
           delayedBy data s c d (k + numSamples data)"
proof -
  define n where "n = numSamples data"
  define M where "M = m_maxdelay s"
  define w where "w = m_writePos s"
  have M: "0 < M" using fits by (simp add: shapeFits_def M_def)
  have dM: "d < M" using d by (simp add: M_def)
  have run: "processSamples data s = (0, fold processFrame [0..<n] (data, s))"
    unfolding n_def by (rule processSamples_fits [OF fits])
  note inv = digital_frames [OF con fits c dig fb tg d, of n, folded M_def w_def]
  have s1: "s1 = snd (fold processFrame [0..<n] (data, s))"
    by (simp add: s1_def run)
  from inv have wp: "m_writePos s1 = (w + n) mod M"
    and hist: "\<And>j. j < n \<Longrightarrow> n \<le> j + M \<Longrightarrow>
        samples (m_buffer s1) c ((w + j) mod M) = samples data c j"
    and old: "\<And>p. (\<forall>j<n. (w + j) mod M \<noteq> p) \<Longrightarrow>
        samples (m_buffer s1) c p = samples (m_buffer s) c p"
    by (simp_all add: s1)
  from inv show "targets (chanOf s1 c) d"
    by (simp add: s1)
  from inv show "\<forall>k<numSamples data.
      getSample (fst (snd (processSamples data s))) c k = delayedBy data s c d k"
    by (simp add: run getSample_def n_def)
  show "\<forall>k<d. getSample (m_buffer s1) c ((m_writePos s1 + k + m_maxdelay s - d) mod m_maxdelay s) =
           delayedBy data s c d (k + numSamples data)"
  proof (intro allI impI)
    fix k assume k: "k < d"
    have pos: "((w + n) mod M + k + M - d) mod M = (w + n + k + M - d) mod M"
    proof -
      have "(w + n) mod M + k + M - d = (w + n) mod M + (k + M - d)"
        using dM by simp
      moreover have "w + n + k + M - d = (w + n) + (k + M - d)"
        using dM by simp
      ultimately show ?thesis
        by (simp only: mod_add_left_eq)
    qed
    show "getSample (m_buffer s1) c ((m_writePos s1 + k + m_maxdelay s - d) mod m_maxdelay s) =
           delayedBy data s c d (k + numSamples data)"
    proof (cases "d \<le> k + n")
      case True
      have "w + n + k + M - d = w + (k + n - d) + M"
        using True by simp
      then have p: "(w + n + k + M - d) mod M = (w + (k + n - d)) mod M"
        by (simp only: mod_add_self2)
      have "samples (m_buffer s1) c ((w + (k + n - d)) mod M) = samples data c (k + n - d)"
        using k True dM by (intro hist) simp_all
      then show ?thesis
        using True by (simp add: getSample_def wp pos p delayedBy_def M_def [symmetric] n_def [symmetric])
    next
      case False
      have "samples (m_buffer s1) c ((w + n + k + M - d) mod M) =
          samples (m_buffer s) c ((w + n + k + M - d) mod M)"
      proof (rule old, intro allI impI)
        fix j assume "j < n"
        then show "(w + j) mod M \<noteq> (w + n + k + M - d) mod M"
          using False dM by (intro mod_distinct) simp_all
      qed
      moreover have "w + (k + n) + M - d = w + n + k + M - d" by simp
      ultimately show ?thesis
        using False
        by (simp add: getSample_def wp pos delayedBy_def M_def [symmetric] n_def [symmetric]
            w_def [symmetric])
    qed
  qed
qed

lemma digital_blocks:
  fixes bs :: "AudioBuffer list" and s :: BasicDelayEffect and c d :: nat
  assumes "consistent s" and "\<forall>b\<in>set bs. shapeFits b s \<and> c < numChannels b"
    and "m_switchalgorithm s = digital" and "m_feedback s ! c = 0"
    and "targets (chanOf s c) d" and "d < m_maxdelay s"
  shows "(\<forall>x\<in>set (fst (processBlocks bs s)). x = 0) \<and>
     (\<forall>k < streamLength bs.
        streamAt (fst (snd (processBlocks bs s))) c k = streamDelayedBy bs s c d k)"
  using assms
proof (induction bs arbitrary: s)
  case Nil
  show ?case by (simp add: streamLength_def)
next
  case (Cons b bs)
  define n where "n = numSamples b"
  define s1 where "s1 = snd (snd (processSamples b s))"
  define out where "out = fst (snd (processSamples b s))"
  have fits: "shapeFits b s" and c: "c < numChannels b"
    using Cons.prems(2) by simp_all
  note blk = digital_block [OF Cons.prems(1) fits c Cons.prems(3-6), folded s1_def out_def n_def]
  have cfg: "sameConfig s s1"
    unfolding s1_def by (rule processSamples_config)
  have M1: "m_maxdelay s1 = m_maxdelay s"
    using cfg by (simp add: sameConfig_def)
  have status: "fst (processSamples b s) = 0"
    by (simp add: processSamples_fits [OF fits])
  have outn: "numSamples out = n"
    unfolding out_def n_def by (rule processSamples_frames [OF fits])
  have ih: "(\<forall>x\<in>set (fst (processBlocks bs s1)). x = 0) \<and>
     (\<forall>k < streamLength bs.
        streamAt (fst (snd (processBlocks bs s1))) c k = streamDelayedBy bs s1 c d k)"
  proof (rule Cons.IH)
    show "consistent s1"
      unfolding s1_def by (rule processSamples_consistent [OF Cons.prems(1)])
    show "\<forall>b\<in>set bs. shapeFits b s1 \<and> c < numChannels b"
      using Cons.prems(2) sameConfig_fits [OF cfg] by simp
    show "m_switchalgorithm s1 = digital" and "m_feedback s1 ! c = 0" and "d < m_maxdelay s1"
      using Cons.prems(3,4,6) cfg by (simp_all add: sameConfig_def)
    show "targets (chanOf s1 c) d"
      by (rule blk(1))
  qed
  have unfold: "processBlocks (b # bs) s =
      (0 # fst (processBlocks bs s1), out # fst (snd (processBlocks bs s1)),
       snd (snd (processBlocks bs s1)))"
    by (simp add: Let_def s1_def out_def status)
  have "streamAt (out # fst (snd (processBlocks bs s1))) c k = streamDelayedBy (b # bs) s c d k"
    if k: "k < streamLength (b # bs)" for k
  proof (cases "k < n")
    case True
    then have "streamAt (out # fst (snd (processBlocks bs s1))) c k = delayedBy b s c d k"
      using blk(2) by (simp add: outn)
    also have "\<dots> = streamDelayedBy (b # bs) s c d k"
    proof -
      have "k - d < numSamples b" using True by (simp add: n_def less_imp_diff_less)
      then show ?thesis by (simp add: delayedBy_def streamDelayedBy_def)
    qed
    finally show ?thesis .
  next
    case False
    define k' where "k' = k - n"
    have kk: "k = k' + n" using False by (simp add: k'_def)
    have k': "k' < streamLength bs"
      using k False by (simp add: streamLength_def k'_def n_def)
    have "streamAt (out # fst (snd (processBlocks bs s1))) c k = streamDelayedBy bs s1 c d k'"
      using ih k' False by (simp add: outn k'_def)
    also have "\<dots> = streamDelayedBy (b # bs) s c d k"
    proof (cases "d \<le> k'")
      case True
      then have "k' + n - d - n = k' - d" and "\<not> k' + n - d < n" by simp_all
      then show ?thesis
        using True by (simp add: streamDelayedBy_def kk n_def)
    next
      case False
      then have "streamDelayedBy bs s1 c d k' = delayedBy b s c d (k' + n)"
        using blk(3) by (simp add: streamDelayedBy_def M1)
      also have "\<dots> = streamDelayedBy (b # bs) s c d (k' + n)"
        using False by (auto simp add: delayedBy_def streamDelayedBy_def n_def)
      finally show ?thesis by (simp add: kk)
    qed
    finally show ?thesis .
  qed
  then show ?case
    unfolding unfold using ih by simp
qed

lemma streamDelayedBy_setDelay:
  "streamDelayedBy bs (setDelay delay chn s) = streamDelayedBy bs s"
  using setDelay_config [of s delay chn]
  by (intro ext) (simp add: streamDelayedBy_def setDelay_audio sameConfig_def)

lemma digitalLine_facts:
  "consistent digitalLine"
  "m_nrOfChns digitalLine = 2"
  "m_maxdelay digitalLine = 1000"
  "m_switchalgorithm digitalLine = digital"
  "m_feedback digitalLine ! 0 = 0"
  "m_switchState digitalLine ! 0 = normal"
  "samples (m_buffer digitalLine) = (\<lambda>chn i. 0)"
  unfolding digitalLine_def
  by (simp_all add: consistent_def setSwitchAlgorithm_def switchalgorithmChanged_def
      new_fields new_fields2 newBuffer_def)

text \<open>
  Claim C2. The digital algorithm is selected, the feedback gain of the channel is 0, the
  channel is normal and a delay below the capacity is requested. Then a run of blocks,
  each of a shape that fits and with the channel in it, is processed with status 0 for
  every block, and for the channel the output stream at every frame \<open>k\<close> from the delay
  on is the input stream at frame \<open>k\<close> minus the delay, across block boundaries; before
  that it is what the ring held. For a unit impulse at frame 0 on a silent ring the
  output is 1 at the frame of the delay and 0 at every other frame.
\<close>

theorem digital_output_is_input_delayed:
  assumes "consistent s" and "\<forall>b\<in>set blocks. shapeFits b s \<and> chn < numChannels b"
    and "m_switchalgorithm s = digital" and "m_feedback s ! chn = 0"
    and "m_switchState s ! chn = normal" and "delay < m_maxdelay s"
  shows "(\<forall>x\<in>set (fst (processBlocks blocks (setDelay delay chn s))). x = 0) \<and>
    (\<forall>k < streamLength blocks.
       streamAt (fst (snd (processBlocks blocks (setDelay delay chn s)))) chn k =
         streamDelayedBy blocks s chn delay k) \<and>
    (streamAt blocks chn 0 = 1 \<and> (\<forall>k. 0 < k \<longrightarrow> streamAt blocks chn k = 0) \<and>
     (\<forall>p. getSample (m_buffer s) chn p = 0) \<longrightarrow>
       (\<forall>k < streamLength blocks.
          streamAt (fst (snd (processBlocks blocks (setDelay delay chn s)))) chn k =
            (if k = delay then 1 else 0)))"
proof (cases "blocks = []")
  case True
  then show ?thesis by (simp add: streamLength_def)
next
  case False
  let ?q = "setDelay delay chn s"
  from False obtain b where "b \<in> set blocks" by (cases blocks) auto
  then have chn: "chn < m_nrOfChns s"
    using assms(2) by (auto simp add: shapeFits_def)
  have cfg: "sameConfig s ?q" by (rule setDelay_config)
  have conq: "consistent ?q" using assms(1) by (rule setDelay_consistent)
  have fitsq: "\<forall>b\<in>set blocks. shapeFits b ?q \<and> chn < numChannels b"
    using assms(2) sameConfig_fits [OF cfg] by simp
  have digq: "m_switchalgorithm ?q = digital" and fbq: "m_feedback ?q ! chn = 0"
    and dq: "delay < m_maxdelay ?q"
    using assms(3,4,6) cfg by (simp_all add: sameConfig_def)
  have tq: "targets (chanOf ?q chn) delay"
    by (rule setDelay_targets [OF assms(1) chn assms(6) assms(5)])
  note main = digital_blocks [OF conq fitsq digq fbq tq dq, unfolded streamDelayedBy_setDelay]
  have "streamAt (fst (snd (processBlocks blocks ?q))) chn k = (if k = delay then 1 else 0)"
    if imp: "streamAt blocks chn 0 = 1" "\<forall>k. 0 < k \<longrightarrow> streamAt blocks chn k = 0"
      "\<forall>p. getSample (m_buffer s) chn p = 0" and k: "k < streamLength blocks" for k
  proof -
    have "streamDelayedBy blocks s chn delay k = (if k = delay then 1 else 0)"
      using imp by (auto simp add: streamDelayedBy_def)
    then show ?thesis using main k by simp
  qed
  with main show ?thesis
    by blast
qed

theorem digital_output_is_input_delayed_witness:
  "consistent digitalLine \<and>
   shapeFits (impulseBlocks ! 0) digitalLine \<and> shapeFits (impulseBlocks ! 1) digitalLine \<and>
   m_switchalgorithm digitalLine = digital \<and> m_feedback digitalLine ! 0 = 0 \<and>
   streamAt impulseBlocks 0 0 = 1 \<and>
   streamAt (fst (snd (processBlocks impulseBlocks (setDelay 3 0 digitalLine)))) 0 3 = 1 \<and>
   streamAt (fst (snd (processBlocks impulseBlocks (setDelay 3 0 digitalLine)))) 0 2 = 0 \<and>
   streamAt (fst (snd (processBlocks impulseBlocks (setDelay 3 0 digitalLine)))) 0 4 = 0"
proof -
  have h: "consistent digitalLine"
    "\<forall>b\<in>set impulseBlocks. shapeFits b digitalLine \<and> 0 < numChannels b"
    "m_switchalgorithm digitalLine = digital"
    "m_feedback digitalLine ! 0 = 0" "m_switchState digitalLine ! 0 = normal"
    "3 < m_maxdelay digitalLine"
    by (simp_all add: digitalLine_facts shapeFits_def impulseBlocks_def newBuffer_def)
  have i: "streamAt impulseBlocks 0 0 = 1 \<and> (\<forall>k. 0 < k \<longrightarrow> streamAt impulseBlocks 0 k = 0) \<and>
     (\<forall>p. getSample (m_buffer digitalLine) 0 p = 0)"
    by (simp add: getSample_def impulseBlocks_def digitalLine_facts newBuffer_def)
  have n: "streamLength impulseBlocks = 6"
    by (simp add: streamLength_def impulseBlocks_def newBuffer_def)
  from digital_output_is_input_delayed [OF h] i
  have "\<forall>k < streamLength impulseBlocks.
      streamAt (fst (snd (processBlocks impulseBlocks (setDelay 3 0 digitalLine)))) 0 k
      = (if k = 3 then 1 else 0)"
    by blast
  then have "streamAt (fst (snd (processBlocks impulseBlocks (setDelay 3 0 digitalLine)))) 0 3 = 1"
    and "streamAt (fst (snd (processBlocks impulseBlocks (setDelay 3 0 digitalLine)))) 0 2 = 0"
    and "streamAt (fst (snd (processBlocks impulseBlocks (setDelay 3 0 digitalLine)))) 0 4 = 0"
    by (simp_all add: n)
  moreover have "shapeFits (impulseBlocks ! 0) digitalLine"
    and "shapeFits (impulseBlocks ! 1) digitalLine"
    by (simp_all add: digitalLine_facts shapeFits_def impulseBlocks_def newBuffer_def)
  ultimately show ?thesis
    using h(1,3,4) i by simp
qed

end
